theory Spec2Isabelle
  imports Main "HOL-Library.Word" "HOL-Library.Sublist"
begin

section \<open>Data model of \<^verbatim>\<open>slack.go\<close>\<close>

text \<open>
  A Go \<^verbatim>\<open>string\<close> is a sequence of bytes, so it is a \<^typ>\<open>string\<close> here
  (\<^typ>\<open>char\<close> is a byte). A slice is a list: \<^verbatim>\<open>omitempty\<close> asks only for
  \<^verbatim>\<open>len(v) == 0\<close>, which a nil and an empty slice share, so the two are not told apart.
  \<^verbatim>\<open>int64\<close> is a 64-bit word read as a signed number.
\<close>

record AttachmentField =
  Title :: string
  Value :: string
  Short :: bool

record Attachment =
  Fallback :: string
  Color :: string
  Pretext :: string
  AuthorName :: string
  AuthorLink :: string
  AuthorIcon :: string
  Title :: string
  TitleLink :: string
  Text :: string
  Fields :: "AttachmentField list"
  ImageURL :: string
  ThumbURL :: string
  Footer :: string
  FooterIcon :: string
  Timestamp :: "64 word"
  MrkdwnIn :: "string list"

record Message =
  Username :: string
  Channel :: string
  IconEmoji :: string
  IconURL :: string
  Text :: string
  Attachments :: "Attachment list"

section \<open>The JSON encoding that \<^verbatim>\<open>json.NewEncoder(&b).Encode(message)\<close> writes\<close>

text \<open>
  The struct tags of \<^verbatim>\<open>slack.go\<close> fix the key of every field and mark every field
  \<^verbatim>\<open>omitempty\<close>. What the encoder does with them is Go's \<^verbatim>\<open>encoding/json\<close>:
  the functions below follow that package (\<^verbatim>\<open>encode.go\<close>, \<^verbatim>\<open>stream.go\<close>) and
  \<^verbatim>\<open>unicode/utf8\<close>, for the field types that occur in the three structs.
\<close>

subsection \<open>\<^verbatim>\<open>unicode/utf8\<close>\<close>

definition RuneError :: int where
  "RuneError = 0xFFFD"

definition byte :: "char \<Rightarrow> int" where
  "byte c = of_char c"

text \<open>
  \<^verbatim>\<open>utf8.DecodeRuneInString\<close>: the rune at the head of the bytes and its width.
  The table \<^verbatim>\<open>first\<close> and the \<^verbatim>\<open>acceptRanges\<close> are written as the byte ranges they
  hold; a mask \<^verbatim>\<open>b & 0x3F\<close> is \<open>b mod 64\<close>, a shift \<^verbatim>\<open>x << 6\<close> is \<open>x * 64\<close>, and the
  \<^verbatim>\<open>|\<close> of disjoint bit fields is \<open>+\<close>.
\<close>

definition acceptLo :: "int \<Rightarrow> int" where
  "acceptLo s0 = (if s0 = 0xE0 then 0xA0 else if s0 = 0xF0 then 0x90 else 0x80)"

definition acceptHi :: "int \<Rightarrow> int" where
  "acceptHi s0 = (if s0 = 0xED then 0x9F else if s0 = 0xF4 then 0x8F else 0xBF)"

definition runeSize :: "int \<Rightarrow> nat" where
  "runeSize s0 = (if s0 < 0xE0 then 2 else if s0 < 0xF0 then 3 else 4)"

definition contb :: "int \<Rightarrow> bool" where
  "contb b = (0x80 \<le> b \<and> b \<le> 0xBF)"

definition DecodeRuneInString :: "string \<Rightarrow> int \<times> nat" where
  "DecodeRuneInString s =
    (case s of
       [] \<Rightarrow> (RuneError, 0)
     | c0 # t \<Rightarrow>
        let s0 = byte c0 in
        if s0 < 0x80 then (s0, 1)
        else if s0 < 0xC2 \<or> 0xF4 < s0 then (RuneError, 1)
        else if length s < runeSize s0 then (RuneError, 1)
        else
          let s1 = byte (s ! 1) in
          if s1 < acceptLo s0 \<or> acceptHi s0 < s1 then (RuneError, 1)
          else if runeSize s0 \<le> 2 then ((s0 mod 32) * 64 + s1 mod 64, 2)
          else
            let s2 = byte (s ! 2) in
            if \<not> contb s2 then (RuneError, 1)
            else if runeSize s0 \<le> 3 then
              ((s0 mod 16) * 4096 + (s1 mod 64) * 64 + s2 mod 64, 3)
            else
              let s3 = byte (s ! 3) in
              if \<not> contb s3 then (RuneError, 1)
              else ((s0 mod 8) * 262144 + (s1 mod 64) * 4096 + (s2 mod 64) * 64 + s3 mod 64, 4))"

subsection \<open>Strings: \<^verbatim>\<open>appendString\<close> with \<^verbatim>\<open>escapeHTML\<close> set\<close>

definition dquote :: char where
  "dquote = CHR 0x22"

definition backslash :: char where
  "backslash = CHR 0x5C"

definition hex :: "int \<Rightarrow> char" where
  "hex n = ''0123456789abcdef'' ! nat (n mod 16)"

text \<open>\<^verbatim>\<open>htmlSafeSet\<close>: the ASCII bytes written as they are.\<close>

definition htmlSafeSet :: "int \<Rightarrow> bool" where
  "htmlSafeSet b = (0x20 \<le> b \<and> b < 0x80 \<and> b \<noteq> 0x22 \<and> b \<noteq> 0x26 \<and> b \<noteq> 0x3C \<and> b \<noteq> 0x3E \<and> b \<noteq> 0x5C)"

text \<open>
  The \<^verbatim>\<open>switch b\<close> of \<^verbatim>\<open>appendString\<close> for an ASCII byte outside the safe set, as
  of Go 1.22; earlier releases have no case for 0x08 and 0x0C, which take the last branch.
\<close>

definition escapeByte :: "char \<Rightarrow> string" where
  "escapeByte c =
    (let b = byte c in
     if b = 0x5C \<or> b = 0x22 then [backslash, c]
     else if b = 0x08 then [backslash, CHR ''b'']
     else if b = 0x0C then [backslash, CHR ''f'']
     else if b = 0x0A then [backslash, CHR ''n'']
     else if b = 0x0D then [backslash, CHR ''r'']
     else if b = 0x09 then [backslash, CHR ''t'']
     else [backslash, CHR ''u'', CHR ''0'', CHR ''0'', hex (b div 16), hex (b mod 16)])"

function appendString_loop :: "string \<Rightarrow> string" where
  "appendString_loop [] = []"
| "appendString_loop (c # s) =
    (if byte c < 0x80 then
       (if htmlSafeSet (byte c) then c # appendString_loop s
        else escapeByte c @ appendString_loop s)
     else
       (let r = fst (DecodeRuneInString (take 4 (c # s)));
            size = snd (DecodeRuneInString (take 4 (c # s))) in
        if r = RuneError \<and> size = 1 then
          [backslash, CHR ''u'', CHR ''f'', CHR ''f'', CHR ''f'', CHR ''d''] @ appendString_loop s
        else if r = 0x2028 \<or> r = 0x2029 then
          [backslash, CHR ''u'', CHR ''2'', CHR ''0'', CHR ''2'', hex (r mod 16)]
            @ appendString_loop (drop (size - 1) s)
        else c # take (size - 1) s @ appendString_loop (drop (size - 1) s)))"
  by pat_completeness auto
termination
  by (relation "measure length") auto

definition appendString :: "string \<Rightarrow> string" where
  "appendString src = [dquote] @ appendString_loop src @ [dquote]"

subsection \<open>Numbers, booleans, arrays, structs\<close>

function digits :: "int \<Rightarrow> string" where
  "digits n = (if n < 10 then [hex n] else digits (n div 10) @ [hex (n mod 10)])"
  by pat_completeness auto
termination
  by (relation "measure nat") auto

declare digits.simps [simp del]

text \<open>\<^verbatim>\<open>strconv.AppendInt(b, v, 10)\<close> on an \<^verbatim>\<open>int64\<close>.\<close>

definition AppendInt :: "64 word \<Rightarrow> string" where
  "AppendInt w = (if sint w < 0 then CHR ''-'' # digits (- sint w) else digits (sint w))"

definition boolEncoder :: "bool \<Rightarrow> string" where
  "boolEncoder b = (if b then ''true'' else ''false'')"

fun commaSep :: "string list \<Rightarrow> string" where
  "commaSep [] = []"
| "commaSep [x] = x"
| "commaSep (x # y # ys) = x @ CHR '','' # commaSep (y # ys)"

definition arrayEncoder :: "string list \<Rightarrow> string" where
  "arrayEncoder elems = CHR ''['' # commaSep elems @ '']''"

text \<open>
  A struct is encoded field by field, in the order of declaration. A field tagged
  \<^verbatim>\<open>omitempty\<close> whose value \<^verbatim>\<open>isEmptyValue\<close> accepts is skipped: for a string or a
  slice that is length zero, for a bool \<^verbatim>\<open>false\<close>, for an integer zero. What is left
  is a list of members, each a key and the encoding of its value.
\<close>

type_synonym member = "string \<times> string"

definition omitempty :: "string \<Rightarrow> bool \<Rightarrow> string \<Rightarrow> member list" where
  "omitempty name isEmptyValue enc = (if isEmptyValue then [] else [(name, enc)])"

definition stringField :: "string \<Rightarrow> string \<Rightarrow> member list" where
  "stringField name v = omitempty name (length v = 0) (appendString v)"

definition keys :: "member list \<Rightarrow> string list" where
  "keys ms = map fst ms"

definition memberEncoder :: "member \<Rightarrow> string" where
  "memberEncoder m = dquote # fst m @ dquote # CHR '':'' # snd m"

definition structEncoder :: "member list \<Rightarrow> string" where
  "structEncoder ms = CHR ''{'' # commaSep (map memberEncoder ms) @ ''}''"

definition members_AttachmentField :: "AttachmentField \<Rightarrow> member list" where
  "members_AttachmentField f =
     stringField ''title'' (AttachmentField.Title f)
   @ stringField ''value'' (AttachmentField.Value f)
   @ omitempty ''short'' (\<not> AttachmentField.Short f) (boolEncoder (AttachmentField.Short f))"

definition marshal_AttachmentField :: "AttachmentField \<Rightarrow> string" where
  "marshal_AttachmentField f = structEncoder (members_AttachmentField f)"

definition members_Attachment :: "Attachment \<Rightarrow> member list" where
  "members_Attachment a =
     stringField ''fallback'' (Attachment.Fallback a)
   @ stringField ''color'' (Attachment.Color a)
   @ stringField ''pretext'' (Attachment.Pretext a)
   @ stringField ''author_name'' (Attachment.AuthorName a)
   @ stringField ''author_link'' (Attachment.AuthorLink a)
   @ stringField ''author_icon'' (Attachment.AuthorIcon a)
   @ stringField ''title'' (Attachment.Title a)
   @ stringField ''title_link'' (Attachment.TitleLink a)
   @ stringField ''text'' (Attachment.Text a)
   @ omitempty ''fields'' (length (Attachment.Fields a) = 0)
       (arrayEncoder (map marshal_AttachmentField (Attachment.Fields a)))
   @ stringField ''image_url'' (Attachment.ImageURL a)
   @ stringField ''thumb_url'' (Attachment.ThumbURL a)
   @ stringField ''footer'' (Attachment.Footer a)
   @ stringField ''footer_icon'' (Attachment.FooterIcon a)
   @ omitempty ''ts'' (Attachment.Timestamp a = 0) (AppendInt (Attachment.Timestamp a))
   @ omitempty ''mrkdwn_in'' (length (Attachment.MrkdwnIn a) = 0)
       (arrayEncoder (map appendString (Attachment.MrkdwnIn a)))"

definition marshal_Attachment :: "Attachment \<Rightarrow> string" where
  "marshal_Attachment a = structEncoder (members_Attachment a)"

definition members_Message :: "Message \<Rightarrow> member list" where
  "members_Message m =
     stringField ''username'' (Message.Username m)
   @ stringField ''channel'' (Message.Channel m)
   @ stringField ''icon_emoji'' (Message.IconEmoji m)
   @ stringField ''icon_url'' (Message.IconURL m)
   @ stringField ''text'' (Message.Text m)
   @ omitempty ''attachments'' (length (Message.Attachments m) = 0)
       (arrayEncoder (map marshal_Attachment (Message.Attachments m)))"

definition marshal_Message :: "Message \<Rightarrow> string" where
  "marshal_Message m = structEncoder (members_Message m)"

text \<open>
  \<^verbatim>\<open>Encoder.Encode\<close> writes the encoding of the value and then a newline. It returns an
  error for a value that has no JSON encoding; no value of type \<^verbatim>\<open>Message\<close> is one, so
  the result is always \<open>Inr\<close>.
\<close>

definition Encode :: "Message \<Rightarrow> string + string" where
  "Encode m = Inr (marshal_Message m @ [CHR 0x0A])"

text \<open>
  The zero value of \<^verbatim>\<open>Message\<close>.
\<close>

definition Message_zero :: Message where
  "Message_zero = \<lparr>Username = [], Channel = [], IconEmoji = [], IconURL = [], Text = [],
     Attachments = []\<rparr>"


section \<open>Decoding: \<^verbatim>\<open>json.Unmarshal\<close> into a \<^verbatim>\<open>Message\<close>\<close>

text \<open>
  \<^verbatim>\<open>slack.go\<close> never decodes; the round trip of a \<^verbatim>\<open>Message\<close> through JSON goes
  through Go's decoder, which reads the same struct tags. The functions below follow
  \<^verbatim>\<open>encoding/json\<close> (\<^verbatim>\<open>decode.go\<close>, \<^verbatim>\<open>scanner.go\<close>), \<^verbatim>\<open>unicode/utf8\<close> and
  \<^verbatim>\<open>unicode/utf16\<close> on the inputs that the encoding of a \<^verbatim>\<open>Message\<close> without
  attachments can be: one JSON object whose members are strings. On any other input the
  model answers \<open>None\<close>, which stands for Go's errors and for the inputs left out alike.
\<close>

subsection \<open>\<^verbatim>\<open>utf8.EncodeRune\<close>, \<^verbatim>\<open>utf8.ValidString\<close>\<close>

text \<open>
  \<open>chr\<close> is the conversion \<^verbatim>\<open>byte(x)\<close>. In \<^verbatim>\<open>EncodeRune\<close> the tag bits are added
  instead of or-ed, and \<^verbatim>\<open>r >> 6\<close> is \<open>r div 64\<close>. A negative rune is above every
  bound as a \<^verbatim>\<open>uint32\<close>, so it is encoded as \<^verbatim>\<open>RuneError\<close>, like a surrogate and a
  rune above \<^verbatim>\<open>MaxRune\<close>.
\<close>

definition chr :: "int \<Rightarrow> char" where
  "chr n = char_of n"

definition EncodeRune :: "int \<Rightarrow> string" where
  "EncodeRune r =
    (if 0 \<le> r \<and> r \<le> 0x7F then [chr r]
     else if 0 \<le> r \<and> r \<le> 0x7FF then [chr (0xC0 + r div 64), chr (0x80 + r mod 64)]
     else if r < 0 \<or> 0x10FFFF < r \<or> (0xD800 \<le> r \<and> r \<le> 0xDFFF) then
       [chr 0xEF, chr 0xBF, chr 0xBD]
     else if r \<le> 0xFFFF then
       [chr (0xE0 + r div 4096), chr (0x80 + (r div 64) mod 64), chr (0x80 + r mod 64)]
     else
       [chr (0xF0 + r div 262144), chr (0x80 + (r div 4096) mod 64),
        chr (0x80 + (r div 64) mod 64), chr (0x80 + r mod 64)])"

text \<open>
  \<^verbatim>\<open>utf8.ValidString\<close>: no position of the string decodes to \<^verbatim>\<open>RuneError\<close> with
  width 1.
\<close>

function ValidString :: "string \<Rightarrow> bool" where
  "ValidString [] = True"
| "ValidString (c # s) =
    (if byte c < 0x80 then ValidString s
     else
       (let r = fst (DecodeRuneInString (take 4 (c # s)));
            size = snd (DecodeRuneInString (take 4 (c # s))) in
        if r = RuneError \<and> size = 1 then False
        else ValidString (drop (size - 1) s)))"
  by pat_completeness auto
termination
  by (relation "measure length") auto

subsection \<open>String literals: \<^verbatim>\<open>unquoteBytes\<close>\<close>

text \<open>
  \<^verbatim>\<open>utf16.IsSurrogate\<close>, \<^verbatim>\<open>utf16.DecodeRune\<close> and \<^verbatim>\<open>getu4\<close>, which reads
  \<^verbatim>\<open>\uXXXX\<close> and returns -1 when the bytes are not that.
\<close>

definition IsSurrogate :: "int \<Rightarrow> bool" where
  "IsSurrogate r = (0xD800 \<le> r \<and> r < 0xE000)"

definition utf16_DecodeRune :: "int \<Rightarrow> int \<Rightarrow> int" where
  "utf16_DecodeRune r1 r2 =
    (if 0xD800 \<le> r1 \<and> r1 < 0xDC00 \<and> 0xDC00 \<le> r2 \<and> r2 < 0xE000
     then (r1 - 0xD800) * 1024 + (r2 - 0xDC00) + 0x10000
     else 0xFFFD)"

definition hexval :: "char \<Rightarrow> int option" where
  "hexval c =
    (let b = byte c in
     if 0x30 \<le> b \<and> b \<le> 0x39 then Some (b - 0x30)
     else if 0x61 \<le> b \<and> b \<le> 0x66 then Some (b - 0x61 + 10)
     else if 0x41 \<le> b \<and> b \<le> 0x46 then Some (b - 0x41 + 10)
     else None)"

fun getu4 :: "string \<Rightarrow> int" where
  "getu4 (b # u # h1 # h2 # h3 # h4 # s) =
    (if b \<noteq> backslash \<or> u \<noteq> CHR ''u'' then - 1
     else
       (case (hexval h1, hexval h2, hexval h3, hexval h4) of
          (Some d1, Some d2, Some d3, Some d4) \<Rightarrow> ((d1 * 16 + d2) * 16 + d3) * 16 + d4
        | _ \<Rightarrow> - 1))"
| "getu4 s = - 1"

text \<open>
  The escapes of one letter. The scanner accepts these eight and no other, so
  \<^verbatim>\<open>\'\<close>, which \<^verbatim>\<open>unquoteBytes\<close> alone would read, is an error.
\<close>

definition unescape :: "char \<Rightarrow> char option" where
  "unescape e =
    (if e = dquote \<or> e = backslash \<or> e = CHR ''/'' then Some e
     else if e = CHR ''b'' then Some (CHR 0x08)
     else if e = CHR ''f'' then Some (CHR 0x0C)
     else if e = CHR ''n'' then Some (CHR 0x0A)
     else if e = CHR ''r'' then Some (CHR 0x0D)
     else if e = CHR ''t'' then Some (CHR 0x09)
     else None)"

text \<open>
  \<open>unquote\<close> reads a string literal from the byte after its opening quote: it returns
  the decoded bytes and the input that follows the closing quote. It is the loop of
  \<^verbatim>\<open>unquoteBytes\<close>, stopped at the quote where the scanner ends the literal. A control
  byte is an error; a byte of 0x80 or more is decoded with \<^verbatim>\<open>utf8.DecodeRune\<close> and
  written back with \<^verbatim>\<open>utf8.EncodeRune\<close>, which turns a byte that is not UTF-8 into
  U+FFFD. \<open>emit\<close> puts decoded bytes in front of the rest of the result.
\<close>

definition emit :: "string \<Rightarrow> (string \<times> string) option \<Rightarrow> (string \<times> string) option" where
  "emit w res = (case res of None \<Rightarrow> None | Some (t, rest) \<Rightarrow> Some (w @ t, rest))"

function unquote :: "string \<Rightarrow> (string \<times> string) option" where
  "unquote [] = None"
| "unquote (c # s) =
    (if c = dquote then Some ([], s)
     else if c = backslash then
       (case s of
          [] \<Rightarrow> None
        | e # s' \<Rightarrow>
           if e = CHR ''u'' then
             (let rr = getu4 (c # s) in
              if rr < 0 then None
              else if IsSurrogate rr then
                (let dec = utf16_DecodeRune rr (getu4 (drop 5 s)) in
                 if dec \<noteq> RuneError then emit (EncodeRune dec) (unquote (drop 11 s))
                 else emit (EncodeRune RuneError) (unquote (drop 5 s)))
              else emit (EncodeRune rr) (unquote (drop 5 s)))
           else
             (case unescape e of
                None \<Rightarrow> None
              | Some b \<Rightarrow> emit [b] (unquote s')))
     else if byte c < 0x20 then None
     else if byte c < 0x80 then emit [c] (unquote s)
     else
       emit (EncodeRune (fst (DecodeRuneInString (take 4 (c # s)))))
         (unquote (drop (snd (DecodeRuneInString (take 4 (c # s))) - 1) s)))"
  by pat_completeness auto
termination
  by (relation "measure length") auto

definition isSpace :: "char \<Rightarrow> bool" where
  "isSpace c = (c = CHR '' '' \<or> c = CHR 0x09 \<or> c = CHR 0x0D \<or> c = CHR 0x0A)"

fun skip_ws :: "string \<Rightarrow> string" where
  "skip_ws [] = []"
| "skip_ws (c # s) = (if isSpace c then skip_ws s else c # s)"

subsection \<open>The object\<close>

text \<open>
  A key is matched against the tags of the five string fields of \<^verbatim>\<open>Message\<close>, and
  its value is stored in the field; a key seen twice is stored twice. The key
  \<^verbatim>\<open>attachments\<close>, keys that differ from a tag in case and unknown keys are outside the
  model.
\<close>

definition set_field :: "Message \<Rightarrow> string \<Rightarrow> string \<Rightarrow> Message option" where
  "set_field m k v =
    (if k = ''username'' then Some (m\<lparr>Username := v\<rparr>)
     else if k = ''channel'' then Some (m\<lparr>Channel := v\<rparr>)
     else if k = ''icon_emoji'' then Some (m\<lparr>IconEmoji := v\<rparr>)
     else if k = ''icon_url'' then Some (m\<lparr>IconURL := v\<rparr>)
     else if k = ''text'' then Some (m\<lparr>Message.Text := v\<rparr>)
     else None)"

text \<open>
  The loop of \<^verbatim>\<open>decodeState.object\<close>, from the byte after \<^verbatim>\<open>{\<close> or \<^verbatim>\<open>,\<close>: a
  key, a colon, a string value, then \<^verbatim>\<open>,\<close> or \<^verbatim>\<open>}\<close>, with white space allowed
  between them. It returns the message and the input after the closing brace.
\<close>

function object_members :: "Message \<Rightarrow> string \<Rightarrow> (Message \<times> string) option" where
  "object_members m s =
    (case skip_ws s of
       [] \<Rightarrow> None
     | q # s1 \<Rightarrow>
        if q \<noteq> dquote then None
        else
          (case unquote s1 of
             None \<Rightarrow> None
           | Some (k, s2) \<Rightarrow>
              (case skip_ws s2 of
                 [] \<Rightarrow> None
               | colon # s3 \<Rightarrow>
                  if colon \<noteq> CHR '':'' then None
                  else
                    (case skip_ws s3 of
                       [] \<Rightarrow> None
                     | q' # s4 \<Rightarrow>
                        if q' \<noteq> dquote then None
                        else
                          (case unquote s4 of
                             None \<Rightarrow> None
                           | Some (v, s5) \<Rightarrow>
                              (case set_field m k v of
                                 None \<Rightarrow> None
                               | Some m' \<Rightarrow>
                                  (case skip_ws s5 of
                                     [] \<Rightarrow> None
                                   | d # s6 \<Rightarrow>
                                      if d = CHR '','' then object_members m' s6
                                      else if d = CHR ''}'' then Some (m', s6)
                                      else None)))))))"
  by pat_completeness auto
termination
proof (relation "measure (\<lambda>(m, s). length s)")
  show "wf (measure (\<lambda>(m, s). length s))"
    by simp
next
  fix m :: Message and s s1 k s2 s3 s4 v s5 s6 :: string and q colon q' d :: char
    and x y
  assume a: "skip_ws s = q # s1" "unquote s1 = Some x" "(k, s2) = x"
    "skip_ws s2 = colon # s3" "skip_ws s3 = q' # s4" "unquote s4 = Some y" "(v, s5) = y"
    "skip_ws s5 = d # s6"
  have ws: "length (skip_ws t) \<le> length t" for t
    by (induction t) auto
  have uq: "length r < length t" if "unquote t = Some (w, r)" for t w r
    using that
    by (induction t arbitrary: w r rule: unquote.induct)
      (auto simp: emit_def Let_def split: if_splits option.splits list.splits prod.splits,
        fastforce+)
  from a have "length s6 < length s5" "length s5 < length s4" "length s4 < length s3"
    "length s3 < length s2" "length s2 < length s1" "length s1 < length s"
    using ws [of s] ws [of s2] ws [of s3] ws [of s5] uq [of s1 k s2] uq [of s4 v s5]
    by auto
  then show "((m', s6), (m, s)) \<in> measure (\<lambda>(m, s). length s)" for m'
    by simp
qed

declare object_members.simps [simp del]

text \<open>
  \<^verbatim>\<open>json.Unmarshal(data, &m)\<close> with \<^verbatim>\<open>m\<close> the zero \<^verbatim>\<open>Message\<close>: one object,
  and nothing but white space after it.
\<close>

definition finish :: "Message \<Rightarrow> string \<Rightarrow> Message option" where
  "finish m rest = (if skip_ws rest = [] then Some m else None)"

definition unmarshal_Message :: "string \<Rightarrow> Message option" where
  "unmarshal_Message data =
    (case skip_ws data of
       [] \<Rightarrow> None
     | b # s \<Rightarrow>
        if b \<noteq> CHR ''{'' then None
        else
          (case skip_ws s of
             [] \<Rightarrow> None
           | e # s' \<Rightarrow>
              if e = CHR ''}'' then finish Message_zero s'
              else
                (case object_members Message_zero s of
                   None \<Rightarrow> None
                 | Some (m, rest) \<Rightarrow> finish m rest)))"

section \<open>Reading the keys of a JSON object\<close>

text \<open>
  A key is in the encoding of a struct when it is the name of a member of the JSON object
  that the text denotes. \<open>object_keys\<close> reads the names of the members of an object
  from its text, by the grammar of JSON in the compact form that the encoder writes: a
  name is a string literal (read by \<open>unquote\<close>) followed by a colon, and the value
  after it is passed over, whatever it contains. White space is accepted after the
  object, where \<^verbatim>\<open>Encoder.Encode\<close> puts its newline. The answer is \<open>None\<close> for a
  text that is not of that form.
\<close>

text \<open>
  Passing over a number (a digit string with an optional sign) and over one of the words
  \<^verbatim>\<open>true\<close>, \<^verbatim>\<open>false\<close>, \<^verbatim>\<open>null\<close>.
\<close>

definition isDigit :: "char \<Rightarrow> bool" where
  "isDigit c = (0x30 \<le> byte c \<and> byte c \<le> 0x39)"

definition skip_number :: "string \<Rightarrow> string option" where
  "skip_number s =
    (let t = (case s of [] \<Rightarrow> [] | c # r \<Rightarrow> if c = CHR ''-'' then r else s) in
     case t of
       [] \<Rightarrow> None
     | c # r \<Rightarrow> if isDigit c then Some (dropWhile isDigit r) else None)"

definition skip_word :: "string \<Rightarrow> string \<Rightarrow> string option" where
  "skip_word w s = (if take (length w) s = w then Some (drop (length w) s) else None)"

text \<open>
  Passing over the rest of an array or object, \<open>n\<close> brackets deep inside it: string
  literals are read as a whole, so a bracket inside a string does not count.
\<close>

function skip_nested :: "nat \<Rightarrow> string \<Rightarrow> string option" where
  "skip_nested n [] = None"
| "skip_nested n (c # s) =
    (if c = dquote then
       (case unquote s of
          None \<Rightarrow> None
        | Some (t, rest) \<Rightarrow> skip_nested n rest)
     else if c = CHR ''{'' \<or> c = CHR ''['' then skip_nested (Suc n) s
     else if c = CHR ''}'' \<or> c = CHR '']'' then
       (case n of 0 \<Rightarrow> Some s | Suc k \<Rightarrow> skip_nested k s)
     else skip_nested n s)"
  by pat_completeness auto
termination
proof (relation "measure (\<lambda>(n, s). length s)")
  show "wf (measure (\<lambda>(n, s). length s))"
    by simp
next
  fix n :: nat and c :: char and s t rest :: string and x
  assume "unquote s = Some x" "(t, rest) = x"
  then have u: "unquote s = Some (t, rest)"
    by simp
  have "length r < length i" if "unquote i = Some (w, r)" for i w r
    using that
    by (induction i arbitrary: w r rule: unquote.induct)
      (auto simp: emit_def Let_def split: if_splits option.splits list.splits prod.splits,
        fastforce+)
  from this [OF u] show "((n, rest), (n, c # s)) \<in> measure (\<lambda>(n, s). length s)"
    by simp
qed simp_all

text \<open>
  Passing over one value: a string, an array or object, a word or a number.
\<close>

definition skip_value :: "string \<Rightarrow> string option" where
  "skip_value s =
    (case s of
       [] \<Rightarrow> None
     | c # r \<Rightarrow>
        if c = dquote then map_option snd (unquote r)
        else if c = CHR ''{'' \<or> c = CHR ''['' then skip_nested 0 r
        else if c = CHR ''t'' then skip_word ''true'' s
        else if c = CHR ''f'' then skip_word ''false'' s
        else if c = CHR ''n'' then skip_word ''null'' s
        else skip_number s)"




section \<open>\<^verbatim>\<open>Client\<close> and \<^verbatim>\<open>Send\<close>\<close>

text \<open>
  The collaborators of \<^verbatim>\<open>Send\<close> are \<^verbatim>\<open>net/http\<close> values. An \<^verbatim>\<open>http.Response\<close> is
  the three fields that \<^verbatim>\<open>Send\<close> reads: \<^verbatim>\<open>Status\<close> (the status text, \<^verbatim>\<open>"200 OK"\<close>),
  \<^verbatim>\<open>StatusCode\<close> and \<^verbatim>\<open>Body\<close>. The body is what \<^verbatim>\<open>ioutil.ReadAll(resp.Body)\<close>
  returns: \<open>Inr\<close> the bytes, or \<open>Inl\<close> the description of the error that a read hit.
  \<^verbatim>\<open>StatusCode\<close> is only compared, so the Go \<^verbatim>\<open>int\<close> is an \<^typ>\<open>int\<close>.
\<close>

record Response =
  Status :: string
  StatusCode :: int
  Body :: "string + string"

text \<open>
  An \<^verbatim>\<open>*http.Client\<close> is its method \<^verbatim>\<open>Post(url, contentType, body)\<close>: \<open>Inl\<close> the
  description of the error it returns, or \<open>Inr\<close> the response. The field
  \<^verbatim>\<open>HTTPClient\<close> may be nil, which is \<open>None\<close>.
\<close>

type_synonym http_Client = "string \<Rightarrow> string \<Rightarrow> string \<Rightarrow> string + Response"

record Client =
  WebhookURL :: string
  HTTPClient :: "http_Client option"

text \<open>
  \<^verbatim>\<open>Send\<close> returns errors made by \<^verbatim>\<open>fmt.Errorf\<close>, which carry a message and nothing
  else. The constructor records which \<^verbatim>\<open>return\<close> statement made the error, under the
  name the specification gives to that condition; \<open>Error\<close> is the message.
\<close>

datatype error =
  InvalidInput string
| EncodingFailure string
| TransportFailure string
| RemoteRejected string

fun Error :: "error \<Rightarrow> string" where
  "Error (InvalidInput s) = s"
| "Error (EncodingFailure s) = s"
| "Error (TransportFailure s) = s"
| "Error (RemoteRejected s) = s"

text \<open>The calls that \<^verbatim>\<open>Send\<close> makes on its collaborators, in the order it makes them.\<close>

datatype call =
  Post_called string string string
| ReadAll_called
| Close_called

text \<open>
  What a call of \<^verbatim>\<open>Send\<close> leaves behind: the error returned (\<open>None\<close> is nil), the calls
  made, and the values of \<^verbatim>\<open>*c\<close> and \<^verbatim>\<open>*message\<close> when it returns.
\<close>

record send_result =
  returned :: "error option"
  calls :: "call list"
  final_client :: Client
  final_message :: "Message option"

text \<open>
  \<^verbatim>\<open>func (c *Client) Send(message *Message) error\<close>. The first argument is the global
  \<^verbatim>\<open>http.DefaultClient\<close>. The deferred \<^verbatim>\<open>resp.Body.Close()\<close> runs last on every path
  that follows it.
\<close>

definition Client_Send :: "http_Client \<Rightarrow> Client \<Rightarrow> Message option \<Rightarrow> send_result" where
  "Client_Send DefaultClient c message =
    (case message of
       None \<Rightarrow>
         \<lparr>returned = Some (InvalidInput ''message is nil''), calls = [],
          final_client = c, final_message = message\<rparr>
     | Some m \<Rightarrow>
        (case Encode m of
           Inl e \<Rightarrow>
             \<lparr>returned = Some (EncodingFailure (''Could not encode the message to JSON: '' @ e)),
              calls = [], final_client = c, final_message = message\<rparr>
         | Inr b \<Rightarrow>
            let hc = (case HTTPClient c of None \<Rightarrow> DefaultClient | Some h \<Rightarrow> h) in
            (case hc (WebhookURL c) ''application/json'' b of
               Inl e \<Rightarrow>
                 \<lparr>returned = Some (TransportFailure (''Could not send the request: '' @ e)),
                  calls = [Post_called (WebhookURL c) ''application/json'' b],
                  final_client = c, final_message = message\<rparr>
             | Inr resp \<Rightarrow>
                if StatusCode resp \<ge> 300 then
                  (case Body resp of
                     Inl e \<Rightarrow>
                       \<lparr>returned = Some (RemoteRejected
                          (''Slack API returned '' @ Status resp @ '' (could not read body: '' @ e @ '')'')),
                        calls = [Post_called (WebhookURL c) ''application/json'' b,
                                 ReadAll_called, Close_called],
                        final_client = c, final_message = message\<rparr>
                   | Inr body \<Rightarrow>
                       \<lparr>returned = Some (RemoteRejected
                          (''Slack API returned '' @ Status resp @ '': '' @ body)),
                        calls = [Post_called (WebhookURL c) ''application/json'' b,
                                 ReadAll_called, Close_called],
                        final_client = c, final_message = message\<rparr>)
                else
                  \<lparr>returned = None,
                   calls = [Post_called (WebhookURL c) ''application/json'' b, Close_called],
                   final_client = c, final_message = message\<rparr>)))"

text \<open>
  \<^verbatim>\<open>func Send(WebhookURL string, message *Message) error\<close>: the method, on a client
  made for the call with no \<^verbatim>\<open>HTTPClient\<close>.
\<close>

definition Send :: "http_Client \<Rightarrow> string \<Rightarrow> Message option \<Rightarrow> send_result" where
  "Send DefaultClient url message =
     Client_Send DefaultClient \<lparr>WebhookURL = url, HTTPClient = None\<rparr> message"

text \<open>
  The convenience entry point in the words of the specification: a client that holds the
  URL and the default transport, and one \<^verbatim>\<open>Send\<close> on it.
\<close>

definition spec_Send :: "http_Client \<Rightarrow> string \<Rightarrow> Message option \<Rightarrow> send_result" where
  "spec_Send DefaultClient url message =
     Client_Send DefaultClient \<lparr>WebhookURL = url, HTTPClient = Some DefaultClient\<rparr> message"

text \<open>The transport that \<^verbatim>\<open>Send\<close> uses: \<^verbatim>\<open>c.HTTPClient\<close>, or \<^verbatim>\<open>http.DefaultClient\<close> when that is nil.\<close>

definition transport_of :: "http_Client \<Rightarrow> Client \<Rightarrow> http_Client" where
  "transport_of DefaultClient c = (case HTTPClient c of None \<Rightarrow> DefaultClient | Some h \<Rightarrow> h)"

text \<open>The request bodies that the transport was given, read off the calls.\<close>

definition posted_bodies :: "send_result \<Rightarrow> string list" where
  "posted_bodies r = concat (map (\<lambda>e. case e of Post_called u t b \<Rightarrow> [b] | _ \<Rightarrow> []) (calls r))"

section \<open>Values used in examples\<close>

definition hello :: Message where
  "hello = Message_zero\<lparr>Message.Text := ''hello''\<rparr>"

text \<open>
  \<^verbatim>\<open>Message{Username: "bot", Text: "caf\xc3\xa9 <b>"}\<close>: a string with a two-byte UTF-8
  sequence and bytes that the encoder escapes.
\<close>

definition bonjour :: Message where
  "bonjour = Message_zero\<lparr>Username := ''bot'',
     Message.Text := [CHR ''c'', CHR ''a'', CHR ''f'', CHR 0xC3, CHR 0xA9, CHR '' '', CHR ''<'',
       CHR ''b'', CHR ''>'']\<rparr>"

text \<open>A transport that answers every request with the given status and body.\<close>

definition answering :: "string \<Rightarrow> int \<Rightarrow> string \<Rightarrow> http_Client" where
  "answering status code body = (\<lambda>url contentType b. Inr \<lparr>Status = status, StatusCode = code, Body = Inr body\<rparr>)"

text \<open>A transport that fails before it has a response, with the given description.\<close>

definition failing :: "string \<Rightarrow> http_Client" where
  "failing e = (\<lambda>url contentType b. Inl e)"

definition example_client :: Client where
  "example_client = \<lparr>WebhookURL = ''https://hooks.example/T0'', HTTPClient = None\<rparr>"

section \<open>Auxiliary definitions\<close>

text \<open>
  What the round trip makes of a string: every byte that is not part of a UTF-8 sequence
  becomes the three bytes of U+FFFD, and the rest stays.
\<close>

function toValidUTF8 :: "string \<Rightarrow> string" where
  "toValidUTF8 [] = []"
| "toValidUTF8 (c # s) =
    (if byte c < 0x80 then c # toValidUTF8 s
     else
       (let r = fst (DecodeRuneInString (take 4 (c # s)));
            size = snd (DecodeRuneInString (take 4 (c # s))) in
        if r = RuneError \<and> size = 1 then [CHR 0xEF, CHR 0xBF, CHR 0xBD] @ toValidUTF8 s
        else c # take (size - 1) s @ toValidUTF8 (drop (size - 1) s)))"
  by pat_completeness auto
termination
  by (relation "measure length") auto

definition toValid_Message :: "Message \<Rightarrow> Message" where
  "toValid_Message m = \<lparr>Username = toValidUTF8 (Message.Username m),
     Channel = toValidUTF8 (Message.Channel m), IconEmoji = toValidUTF8 (Message.IconEmoji m),
     IconURL = toValidUTF8 (Message.IconURL m), Text = toValidUTF8 (Message.Text m),
     Attachments = Message.Attachments m\<rparr>"

text \<open>
  The three shapes of a multi-byte sequence that \<^verbatim>\<open>DecodeRuneInString\<close> accepts, and
  the runes they stand for.
\<close>

definition dec2 :: "char \<Rightarrow> char \<Rightarrow> int" where
  "dec2 c c1 = (byte c mod 32) * 64 + byte c1 mod 64"
definition dec3 :: "char \<Rightarrow> char \<Rightarrow> char \<Rightarrow> int" where
  "dec3 c c1 c2 = (byte c mod 16) * 4096 + (byte c1 mod 64) * 64 + byte c2 mod 64"
definition dec4 :: "char \<Rightarrow> char \<Rightarrow> char \<Rightarrow> char \<Rightarrow> int" where
  "dec4 c c1 c2 c3 = (byte c mod 8) * 262144 + (byte c1 mod 64) * 4096 + (byte c2 mod 64) * 64 + byte c3 mod 64"

definition ok2 :: "char \<Rightarrow> char \<Rightarrow> bool" where
  "ok2 c c1 = (0xC2 \<le> byte c \<and> byte c \<le> 0xDF \<and> contb (byte c1))"
definition ok3 :: "char \<Rightarrow> char \<Rightarrow> char \<Rightarrow> bool" where
  "ok3 c c1 c2 = (0xE0 \<le> byte c \<and> byte c \<le> 0xEF \<and> acceptLo (byte c) \<le> byte c1
     \<and> byte c1 \<le> acceptHi (byte c) \<and> contb (byte c2))"
definition ok4 :: "char \<Rightarrow> char \<Rightarrow> char \<Rightarrow> char \<Rightarrow> bool" where
  "ok4 c c1 c2 c3 = (0xF0 \<le> byte c \<and> byte c \<le> 0xF4 \<and> acceptLo (byte c) \<le> byte c1
     \<and> byte c1 \<le> acceptHi (byte c) \<and> contb (byte c2) \<and> contb (byte c3))"

text \<open>
  The members of an encoded \<^verbatim>\<open>Message\<close> without attachments, as pairs of a key and a
  field value, and what storing them one after the other gives.
\<close>

definition plain :: "string \<Rightarrow> bool" where
  "plain k = list_all (\<lambda>c. htmlSafeSet (byte c)) k"

definition kv_member :: "string \<times> string \<Rightarrow> member" where
  "kv_member kv = (fst kv, appendString (snd kv))"

fun assign :: "Message \<Rightarrow> (string \<times> string) list \<Rightarrow> Message option" where
  "assign m [] = Some m"
| "assign m (kv # kvs) =
    (case set_field m (fst kv) (toValidUTF8 (snd kv)) of
       None \<Rightarrow> None
     | Some m' \<Rightarrow> assign m' kvs)"

definition kv :: "string \<Rightarrow> string \<Rightarrow> (string \<times> string) list" where
  "kv k v = (if v = [] then [] else [(k, v)])"

definition kvs_of :: "Message \<Rightarrow> (string \<times> string) list" where
  "kvs_of m = kv ''username'' (Message.Username m) @ kv ''channel'' (Message.Channel m)
     @ kv ''icon_emoji'' (Message.IconEmoji m) @ kv ''icon_url'' (Message.IconURL m)
     @ kv ''text'' (Message.Text m)"

text \<open>
  For the key reader: a text that \<open>skip_nested\<close> passes over without a change of
  depth, a text that \<open>skip_value\<close> passes over as one value when a comma or a closing
  brace follows, the bytes that are neither a quote nor a bracket, and the members that
  the encoder writes.
\<close>

definition neutral :: "string \<Rightarrow> bool" where
  "neutral p = (\<forall>n rest. skip_nested n (p @ rest) = skip_nested n rest)"

definition value_text :: "string \<Rightarrow> bool" where
  "value_text v = (\<forall>d r. d = CHR '','' \<or> d = CHR ''}'' \<longrightarrow> skip_value (v @ d # r) = Some (d # r))"



section \<open>Lemmas\<close>

lemmas enc_defs = Encode_def marshal_Message_def members_Message_def stringField_def omitempty_def
  structEncoder_def memberEncoder_def appendString_def htmlSafeSet_def byte_def dquote_def

lemma Encode_hello: \<open>Encode hello = Inr (''{"text":"hello"}'' @ [CHR 0x0A])\<close>
  by (simp add: enc_defs hello_def Message_zero_def)

lemma sublist_mid: "sublist x (a @ x @ b)"
  by (rule sublist_appendI)

lemma sublist_last: "sublist x (a @ x)"
  using sublist_appendI [of x a "[]"] by simp

lemma in_keys_append: "(x \<in> set (keys (a @ b))) = (x \<in> set (keys a) \<or> x \<in> set (keys b))"
  by (auto simp add: keys_def)

lemma in_keys_omitempty: "(x \<in> set (keys (omitempty k e v))) = (\<not> e \<and> x = k)"
  by (simp add: keys_def omitempty_def)

lemma in_keys_stringField: "(x \<in> set (keys (stringField k v))) = (v \<noteq> [] \<and> x = k)"
  by (simp add: stringField_def in_keys_omitempty)

lemmas in_keys = in_keys_append in_keys_omitempty in_keys_stringField





lemma Send_returns_nil_iff:
  "(returned (Client_Send DefaultClient c (Some m)) = None) =
   (\<exists>resp. transport_of DefaultClient c (WebhookURL c) ''application/json'' (marshal_Message m @ [CHR 0x0A]) = Inr resp
       \<and> StatusCode resp < 300)"
  by (auto simp add: Client_Send_def Encode_def transport_of_def Let_def split: option.splits sum.splits)

subsection \<open>The round trip of a string literal and of an object\<close>

lemma split_lo: "0 \<le> b \<Longrightarrow> b < n \<Longrightarrow> (a * n + b) div n = a \<and> (a * n + b) mod n = (b::int)"
  by (cases "n = 0") (simp_all add: div_pos_pos_trivial)

lemma mod_sub: "k \<le> x \<Longrightarrow> x < k + n \<Longrightarrow> k mod n = 0 \<Longrightarrow> x mod n = x - (k::int)"
proof -
  assume a: "k \<le> x" "x < k + n" "k mod n = 0"
  have "x mod n = (x - k) mod n"
    using a(3) by (metis diff_zero mod_diff_right_eq)
  also have "\<dots> = x - k"
    using a(1,2) by (simp add: mod_pos_pos_trivial)
  finally show ?thesis .
qed

lemma byte_range: "0 \<le> byte c \<and> byte c < 256"
proof -
  have "byte c mod 256 = byte c"
    unfolding byte_def by (rule of_char_mod_256)
  moreover have "0 \<le> byte c mod 256" "byte c mod 256 < 256"
    by simp_all
  ultimately show ?thesis
    by simp
qed

lemma chr_byte: "chr (byte c) = c"
  by (simp add: chr_def byte_def)

lemma cont_mod: "0x80 \<le> b \<Longrightarrow> b \<le> 0xBF \<Longrightarrow> b mod 64 = b - (0x80::int)"
  by (rule mod_sub) simp_all

lemma enc2:
  assumes "0xC2 \<le> b0" "b0 \<le> 0xDF" "0x80 \<le> b1" "b1 \<le> 0xBF"
  shows "EncodeRune ((b0 mod 32) * 64 + b1 mod 64) = [chr b0, chr b1]"
proof -
  define x where "x = b0 - 0xC0"
  define y where "y = b1 - 0x80"
  have m0: "b0 mod 32 = x"
    unfolding x_def using assms by (intro mod_sub) simp_all
  have m1: "b1 mod 64 = y"
    unfolding y_def using assms by (intro cont_mod)
  have xb: "2 \<le> x" "x < 32" and yb: "0 \<le> y" "y < 64"
    using assms by (simp_all add: x_def y_def)
  have d: "(x * 64 + y) div 64 = x" "(x * 64 + y) mod 64 = y"
    using split_lo [OF yb, of x] by simp_all
  have b: "0x80 \<le> x * 64 + y" "x * 64 + y \<le> 0x7FF"
    using xb yb by linarith+
  have "EncodeRune (x * 64 + y) = [chr (0xC0 + x), chr (0x80 + y)]"
    using b d by (simp add: EncodeRune_def)
  then show ?thesis
    by (simp add: m0 m1) (simp add: x_def y_def)
qed

lemma enc3:
  assumes "0xE0 \<le> b0" "b0 \<le> 0xEF" "acceptLo b0 \<le> b1" "b1 \<le> acceptHi b0" "contb b2"
  shows "EncodeRune ((b0 mod 16) * 4096 + (b1 mod 64) * 64 + b2 mod 64) = [chr b0, chr b1, chr b2]"
proof -
  define x where "x = b0 - 0xE0"
  define y where "y = b1 - 0x80"
  define z where "z = b2 - 0x80"
  have b1: "0x80 \<le> b1" "b1 \<le> 0xBF"
    using assms(3,4) by (auto simp: acceptLo_def acceptHi_def split: if_splits)
  have b2: "0x80 \<le> b2" "b2 \<le> 0xBF"
    using assms(5) by (auto simp: contb_def)
  have m: "b0 mod 16 = x" "b1 mod 64 = y" "b2 mod 64 = z"
    unfolding x_def y_def z_def using assms(1,2) b1 b2
    by (intro mod_sub; simp)+
  have xb: "0 \<le> x" "x < 16" and yb: "0 \<le> y" "y < 64" and zb: "0 \<le> z" "z < 64"
    using assms(1,2) b1 b2 by (simp_all add: x_def y_def z_def)
  define r where "r = x * 4096 + y * 64 + z"
  have r1: "r = (x * 64 + y) * 64 + z" and r2: "r = x * 4096 + (y * 64 + z)"
    by (simp_all add: r_def algebra_simps)
  have yz: "0 \<le> y * 64 + z" "y * 64 + z < 4096"
    using yb zb by linarith+
  have "(x * 4096 + (y * 64 + z)) div 4096 = x"
    using split_lo [OF yz] by blast
  then have d1: "r div 4096 = x"
    by (simp only: r2)
  have "((x * 64 + y) * 64 + z) div 64 = x * 64 + y" "((x * 64 + y) * 64 + z) mod 64 = z"
    using split_lo [OF zb] by blast+
  then have e: "r div 64 = x * 64 + y" "r mod 64 = z"
    by (simp_all only: r1)
  have "(x * 64 + y) mod 64 = y"
    using split_lo [OF yb] by blast
  then have d2: "(r div 64) mod 64 = y"
    by (simp only: e)
  note d = d1 d2 e(2)
  have x0: "x = 0 \<Longrightarrow> 32 \<le> y"
    using assms(3) by (auto simp: x_def y_def acceptLo_def split: if_splits)
  have lo: "0x800 \<le> r"
  proof (cases "x = 0")
    case True
    with x0 yb zb show ?thesis unfolding r_def by linarith
  next
    case False
    with xb yb zb show ?thesis unfolding r_def by linarith
  qed
  have hi: "r \<le> 0xFFFF"
    using xb yb zb unfolding r_def by linarith
  have x13: "x = 13 \<Longrightarrow> y < 32"
    using assms(4) by (auto simp: x_def y_def acceptHi_def split: if_splits)
  have su: "\<not> (0xD800 \<le> r \<and> r \<le> 0xDFFF)"
  proof (cases "x = 13")
    case True
    with x13 yb zb show ?thesis unfolding r_def by linarith
  next
    case False
    then have "x \<le> 12 \<or> 14 \<le> x" by linarith
    with yb zb show ?thesis unfolding r_def by linarith
  qed
  have "EncodeRune r = [chr (0xE0 + x), chr (0x80 + y), chr (0x80 + z)]"
    using lo hi su d by (auto simp add: EncodeRune_def)
  then show ?thesis
    by (simp add: m r_def) (simp add: x_def y_def z_def)
qed

lemma enc4:
  assumes "0xF0 \<le> b0" "b0 \<le> 0xF4" "acceptLo b0 \<le> b1" "b1 \<le> acceptHi b0" "contb b2" "contb b3"
  shows "EncodeRune ((b0 mod 8) * 262144 + (b1 mod 64) * 4096 + (b2 mod 64) * 64 + b3 mod 64)
     = [chr b0, chr b1, chr b2, chr b3]"
proof -
  define x where "x = b0 - 0xF0"
  define y where "y = b1 - 0x80"
  define z where "z = b2 - 0x80"
  define w where "w = b3 - 0x80"
  have b1: "0x80 \<le> b1" "b1 \<le> 0xBF"
    using assms(3,4) by (auto simp: acceptLo_def acceptHi_def split: if_splits)
  have b2: "0x80 \<le> b2" "b2 \<le> 0xBF" and b3: "0x80 \<le> b3" "b3 \<le> 0xBF"
    using assms(5,6) by (auto simp: contb_def)
  have m: "b0 mod 8 = x" "b1 mod 64 = y" "b2 mod 64 = z" "b3 mod 64 = w"
    unfolding x_def y_def z_def w_def using assms(1,2) b1 b2 b3
    by (intro mod_sub; simp)+
  have xb: "0 \<le> x" "x \<le> 4" and yb: "0 \<le> y" "y < 64" and zb: "0 \<le> z" "z < 64"
    and wb: "0 \<le> w" "w < 64"
    using assms(1,2) b1 b2 b3 by (simp_all add: x_def y_def z_def w_def)
  define r where "r = x * 262144 + y * 4096 + z * 64 + w"
  have r1: "r = ((x * 64 + y) * 64 + z) * 64 + w"
    and r2: "r = (x * 64 + y) * 4096 + (z * 64 + w)"
    and r3: "r = x * 262144 + (y * 4096 + z * 64 + w)"
    by (simp_all add: r_def algebra_simps)
  have zw: "0 \<le> z * 64 + w" "z * 64 + w < 4096"
    using zb wb by linarith+
  have yzw: "0 \<le> y * 4096 + z * 64 + w" "y * 4096 + z * 64 + w < 262144"
    using yb zb wb by linarith+
  have "(x * 262144 + (y * 4096 + z * 64 + w)) div 262144 = x"
    using split_lo [OF yzw] by blast
  then have d1: "r div 262144 = x"
    by (simp only: r3)
  have "((x * 64 + y) * 4096 + (z * 64 + w)) div 4096 = x * 64 + y"
    using split_lo [OF zw] by blast
  then have e1: "r div 4096 = x * 64 + y"
    by (simp only: r2)
  have xy: "(x * 64 + y) mod 64 = y"
    using split_lo [OF yb] by blast
  then have d2: "(r div 4096) mod 64 = y"
    by (simp only: e1)
  have "(((x * 64 + y) * 64 + z) * 64 + w) div 64 = (x * 64 + y) * 64 + z"
    "(((x * 64 + y) * 64 + z) * 64 + w) mod 64 = w"
    using split_lo [OF wb] by blast+
  then have e2: "r div 64 = (x * 64 + y) * 64 + z" "r mod 64 = w"
    by (simp_all only: r1)
  have "((x * 64 + y) * 64 + z) mod 64 = z"
    using split_lo [OF zb] by blast
  then have d3: "(r div 64) mod 64 = z"
    by (simp only: e2)
  note d = d1 d2 d3 e2(2)
  have x0: "x = 0 \<Longrightarrow> 16 \<le> y" and x4: "x = 4 \<Longrightarrow> y < 16"
    using assms(3,4) by (auto simp: x_def y_def acceptLo_def acceptHi_def split: if_splits)
  have lo: "0x10000 \<le> r"
  proof (cases "x = 0")
    case True
    with x0 yb zb wb show ?thesis unfolding r_def by linarith
  next
    case False
    with xb yb zb wb show ?thesis unfolding r_def by linarith
  qed
  have hi: "r \<le> 0x10FFFF"
  proof (cases "x = 4")
    case True
    with x4 yb zb wb show ?thesis unfolding r_def by linarith
  next
    case False
    with xb have "x \<le> 3" by linarith
    with yb zb wb show ?thesis unfolding r_def by linarith
  qed
  have "EncodeRune r = [chr (0xF0 + x), chr (0x80 + y), chr (0x80 + z), chr (0x80 + w)]"
    using lo hi d by (simp add: EncodeRune_def)
  then show ?thesis
    by (simp add: m r_def) (simp add: x_def y_def z_def w_def)
qed

lemma Decode_ok2: "ok2 c c1 \<Longrightarrow> DecodeRuneInString (c # c1 # t) = (dec2 c c1, 2)"
  by (simp add: DecodeRuneInString_def ok2_def dec2_def Let_def runeSize_def acceptLo_def
      acceptHi_def contb_def)

lemma Decode_ok3: "ok3 c c1 c2 \<Longrightarrow> DecodeRuneInString (c # c1 # c2 # t) = (dec3 c c1 c2, 3)"
  by (simp add: DecodeRuneInString_def ok3_def dec3_def Let_def runeSize_def)

lemma Decode_ok4: "ok4 c c1 c2 c3 \<Longrightarrow> DecodeRuneInString (c # c1 # c2 # c3 # t) = (dec4 c c1 c2 c3, 4)"
  by (simp add: DecodeRuneInString_def ok4_def dec4_def Let_def runeSize_def)

lemma Decode_cases:
  assumes hi: "0x80 \<le> byte c"
    and ne: "\<not> (fst (DecodeRuneInString (take 4 (c # s))) = RuneError
               \<and> snd (DecodeRuneInString (take 4 (c # s))) = 1)"
  shows "(\<exists>c1 t. s = c1 # t \<and> ok2 c c1)
       \<or> (\<exists>c1 c2 t. s = c1 # c2 # t \<and> ok3 c c1 c2)
       \<or> (\<exists>c1 c2 c3 t. s = c1 # c2 # c3 # t \<and> ok4 c c1 c2 c3)"
proof (cases s)
  case Nil
  with hi ne show ?thesis
    by (simp add: DecodeRuneInString_def Let_def runeSize_def split: if_splits)
next
  case s1: (Cons c1 t1)
  show ?thesis
  proof (cases "byte c < 0xE0")
    case True
    with hi ne s1 show ?thesis
      by (simp add: DecodeRuneInString_def Let_def runeSize_def ok2_def contb_def acceptLo_def
          acceptHi_def split: if_splits)
  next
    case ge: False
    show ?thesis
    proof (cases t1)
      case Nil
      with hi ne s1 ge show ?thesis
        by (simp add: DecodeRuneInString_def Let_def runeSize_def split: if_splits)
    next
      case s2: (Cons c2 t2)
      show ?thesis
      proof (cases "byte c < 0xF0")
        case True
        with hi ne s1 s2 ge show ?thesis
          by (simp add: DecodeRuneInString_def Let_def runeSize_def ok3_def split: if_splits)
      next
        case ge4: False
        show ?thesis
        proof (cases t2)
          case Nil
          with hi ne s1 s2 ge ge4 show ?thesis
            by (simp add: DecodeRuneInString_def Let_def runeSize_def split: if_splits)
        next
          case (Cons c3 t3)
          with hi ne s1 s2 ge ge4 show ?thesis
            by (simp add: DecodeRuneInString_def Let_def runeSize_def ok4_def split: if_splits)
        qed
      qed
    qed
  qed
qed

lemma EncodeRune_dec2: "ok2 c c1 \<Longrightarrow> EncodeRune (dec2 c c1) = [c, c1]"
  using enc2 [of "byte c" "byte c1"] by (simp add: ok2_def dec2_def contb_def chr_byte)

lemma EncodeRune_dec3: "ok3 c c1 c2 \<Longrightarrow> EncodeRune (dec3 c c1 c2) = [c, c1, c2]"
  using enc3 [of "byte c" "byte c1" "byte c2"] by (simp add: ok3_def dec3_def chr_byte)

lemma EncodeRune_dec4: "ok4 c c1 c2 c3 \<Longrightarrow> EncodeRune (dec4 c c1 c2 c3) = [c, c1, c2, c3]"
  using enc4 [of "byte c" "byte c1" "byte c2" "byte c3"] by (simp add: ok4_def dec4_def chr_byte)

lemma byte_dquote: "byte dquote = 0x22" and byte_backslash: "byte backslash = 0x5C"
  by (simp_all add: byte_def dquote_def backslash_def)

lemma byte_eq_iff: "(byte c = byte d) = (c = d)"
  by (simp add: byte_def)

lemma emit_Some: "emit w (Some (t, r)) = Some (w @ t, r)"
  by (simp add: emit_def)

lemma emit_emit: "emit a (emit b x) = emit (a @ b) x"
  by (simp add: emit_def split: option.split)

lemma unquote_dquote: "unquote (dquote # rest) = Some ([], rest)"
  by simp

lemma unquote_safe:
  assumes "htmlSafeSet (byte c)"
  shows "unquote (c # t) = emit [c] (unquote t)"
proof -
  have "c \<noteq> dquote" "c \<noteq> backslash"
    using assms byte_dquote byte_backslash by (auto simp: htmlSafeSet_def)
  moreover have "\<not> byte c < 0x20" "byte c < 0x80"
    using assms by (auto simp: htmlSafeSet_def)
  ultimately show ?thesis
    by simp
qed

lemma hexval_hex: "0 \<le> n \<Longrightarrow> n < 16 \<Longrightarrow> hexval (hex n) = Some n"
proof -
  assume r: "0 \<le> n" "n < 16"
  have "n \<in> set [0, 1, 2, 3, 4, 5, 6, 7, 8, 9, 10, 11, 12, 13, 14, 15]"
    unfolding list.set insert_iff empty_iff using r by presburger
  then show ?thesis
    unfolding list.set insert_iff empty_iff
    by (elim disjE) (simp_all add: hex_def hexval_def byte_def)
qed

lemma getu4_00:
  assumes "0 \<le> b" "b < 0x80"
  shows "getu4 (backslash # CHR ''u'' # CHR ''0'' # CHR ''0'' # hex (b div 16) # hex (b mod 16) # t) = b"
proof -
  have h: "hexval (hex (b div 16)) = Some (b div 16)" "hexval (hex (b mod 16)) = Some (b mod 16)"
    using assms by (auto intro!: hexval_hex)
  have z: "hexval (CHR ''0'') = Some 0"
    by (simp add: hexval_def byte_def)
  show ?thesis
    by (simp add: h z)
qed

lemma unquote_escapeByte:
  assumes lt: "byte c < 0x80" and un: "\<not> htmlSafeSet (byte c)"
  shows "unquote (escapeByte c @ t) = emit [c] (unquote t)"
proof -
  have bq: "backslash \<noteq> dquote"
    by (simp add: backslash_def dquote_def)
  consider "byte c = 0x5C" | "byte c = 0x22" | "byte c = 0x08" | "byte c = 0x0C" | "byte c = 0x0A"
    | "byte c = 0x0D" | "byte c = 0x09"
    | "byte c \<noteq> 0x5C" "byte c \<noteq> 0x22" "byte c \<noteq> 0x08" "byte c \<noteq> 0x0C" "byte c \<noteq> 0x0A"
      "byte c \<noteq> 0x0D" "byte c \<noteq> 0x09"
    by blast
  then show ?thesis
  proof cases
    case 1
    then have "c = backslash"
      using byte_backslash byte_eq_iff by metis
    then show ?thesis
      using bq by (simp add: escapeByte_def byte_def unescape_def dquote_def backslash_def)
  next
    case 2
    then have "c = dquote"
      using byte_dquote byte_eq_iff by metis
    then show ?thesis
      using bq by (simp add: escapeByte_def byte_def unescape_def dquote_def backslash_def)
  next
    case 3
    then have "byte c = byte (CHR 0x08)" by (simp add: byte_def)
    then have "c = CHR 0x08" by (simp only: byte_eq_iff)
    then show ?thesis
      using bq by (simp add: escapeByte_def byte_def unescape_def dquote_def backslash_def)
  next
    case 4
    then have "byte c = byte (CHR 0x0C)" by (simp add: byte_def)
    then have "c = CHR 0x0C" by (simp only: byte_eq_iff)
    then show ?thesis
      using bq by (simp add: escapeByte_def byte_def unescape_def dquote_def backslash_def)
  next
    case 5
    then have "byte c = byte (CHR 0x0A)" by (simp add: byte_def)
    then have "c = CHR 0x0A" by (simp only: byte_eq_iff)
    then show ?thesis
      using bq by (simp add: escapeByte_def byte_def unescape_def dquote_def backslash_def)
  next
    case 6
    then have "byte c = byte (CHR 0x0D)" by (simp add: byte_def)
    then have "c = CHR 0x0D" by (simp only: byte_eq_iff)
    then show ?thesis
      using bq by (simp add: escapeByte_def byte_def unescape_def dquote_def backslash_def)
  next
    case 7
    then have "byte c = byte (CHR 0x09)" by (simp add: byte_def)
    then have "c = CHR 0x09" by (simp only: byte_eq_iff)
    then show ?thesis
      using bq by (simp add: escapeByte_def byte_def unescape_def dquote_def backslash_def)
  next
    case 8
    have b0: "0 \<le> byte c"
      using byte_range by blast
    have g: "getu4 (backslash # CHR ''u'' # CHR ''0'' # CHR ''0'' # hex (byte c div 16)
        # hex (byte c mod 16) # t) = byte c"
      using b0 lt by (rule getu4_00)
    have e: "EncodeRune (byte c) = [c]"
      using b0 lt by (simp add: EncodeRune_def chr_byte)
    have s: "\<not> IsSurrogate (byte c)"
      using lt by (simp add: IsSurrogate_def)
    show ?thesis
      using 8 bq b0 g e s by (simp add: escapeByte_def Let_def)
  qed
qed

lemma unquote_high:
  assumes "0x80 \<le> byte c"
  shows "unquote (c # s) =
    emit (EncodeRune (fst (DecodeRuneInString (take 4 (c # s)))))
      (unquote (drop (snd (DecodeRuneInString (take 4 (c # s))) - 1) s))"
proof -
  have "c \<noteq> dquote" "c \<noteq> backslash"
    using assms byte_dquote byte_backslash by auto
  moreover have "\<not> byte c < 0x20" "\<not> byte c < 0x80"
    using assms by auto
  ultimately show ?thesis
    by simp
qed

lemma multi_byte:
  assumes hi: "0x80 \<le> byte c"
    and ne: "\<not> (fst (DecodeRuneInString (take 4 (c # s))) = RuneError
               \<and> snd (DecodeRuneInString (take 4 (c # s))) = 1)"
  shows "EncodeRune (fst (DecodeRuneInString (take 4 (c # s))))
           = c # take (snd (DecodeRuneInString (take 4 (c # s))) - 1) s
       \<and> snd (DecodeRuneInString (take 4 (c # s))) - 1 \<le> length s
       \<and> (\<forall>X. unquote (c # take (snd (DecodeRuneInString (take 4 (c # s))) - 1) s @ X)
             = emit (c # take (snd (DecodeRuneInString (take 4 (c # s))) - 1) s) (unquote X))"
proof -
  from Decode_cases [OF hi ne]
  consider (2) c1 t where "s = c1 # t" "ok2 c c1"
    | (3) c1 c2 t where "s = c1 # c2 # t" "ok3 c c1 c2"
    | (4) c1 c2 c3 t where "s = c1 # c2 # c3 # t" "ok4 c c1 c2 c3"
    by blast
  then show ?thesis
  proof cases
    case 2
    have d: "DecodeRuneInString (take 4 (c # s)) = (dec2 c c1, 2)"
      using 2 by (simp add: Decode_ok2)
    have u: "unquote (c # c1 # X) = emit [c, c1] (unquote X)" for X
      using unquote_high [OF hi, of "c1 # X"] 2(2)
      by (simp add: Decode_ok2 EncodeRune_dec2 del: unquote.simps)
    show ?thesis
      unfolding d using 2 u by (simp add: EncodeRune_dec2 del: unquote.simps)
  next
    case 3
    have d: "DecodeRuneInString (take 4 (c # s)) = (dec3 c c1 c2, 3)"
      using 3 by (simp add: Decode_ok3)
    have u: "unquote (c # c1 # c2 # X) = emit [c, c1, c2] (unquote X)" for X
      using unquote_high [OF hi, of "c1 # c2 # X"] 3(2)
      by (simp add: Decode_ok3 EncodeRune_dec3 del: unquote.simps)
    show ?thesis
      unfolding d using 3 u by (simp add: EncodeRune_dec3 del: unquote.simps)
  next
    case 4
    have d: "DecodeRuneInString (take 4 (c # s)) = (dec4 c c1 c2 c3, 4)"
      using 4 by (simp add: Decode_ok4)
    have u: "unquote (c # c1 # c2 # c3 # X) = emit [c, c1, c2, c3] (unquote X)" for X
      using unquote_high [OF hi, of "c1 # c2 # c3 # X"] 4(2)
      by (simp add: Decode_ok4 EncodeRune_dec4 del: unquote.simps)
    show ?thesis
      unfolding d using 4 u by (simp add: EncodeRune_dec4 del: unquote.simps)
  qed
qed

lemma unquote_u202:
  assumes "r = 0x2028 \<or> r = 0x2029"
  shows "unquote (backslash # CHR ''u'' # CHR ''2'' # CHR ''0'' # CHR ''2'' # hex (r mod 16) # X)
     = emit (EncodeRune r) (unquote X)"
proof -
  have bq: "backslash \<noteq> dquote"
    by (simp add: backslash_def dquote_def)
  have h: "hexval (hex (r mod 16)) = Some (r mod 16)"
    by (rule hexval_hex) simp_all
  have z: "hexval (CHR ''0'') = Some 0" "hexval (CHR ''2'') = Some 2"
    by (simp_all add: hexval_def byte_def)
  have g: "getu4 (backslash # CHR ''u'' # CHR ''2'' # CHR ''0'' # CHR ''2'' # hex (r mod 16) # X) = r"
    using assms by (auto simp add: h z)
  have s: "\<not> IsSurrogate r" "\<not> r < 0"
    using assms by (auto simp add: IsSurrogate_def)
  show ?thesis
    using bq g s by (simp add: Let_def)
qed

lemma unquote_ufffd:
  "unquote (backslash # CHR ''u'' # CHR ''f'' # CHR ''f'' # CHR ''f'' # CHR ''d'' # X)
     = emit [CHR 0xEF, CHR 0xBF, CHR 0xBD] (unquote X)"
proof -
  have bq: "backslash \<noteq> dquote"
    by (simp add: backslash_def dquote_def)
  have z: "hexval (CHR ''f'') = Some 15" "hexval (CHR ''d'') = Some 13"
    by (simp_all add: hexval_def byte_def)
  have g: "getu4 (backslash # CHR ''u'' # CHR ''f'' # CHR ''f'' # CHR ''f'' # CHR ''d'' # X) = 0xFFFD"
    by (simp add: z)
  have "byte (CHR 0xEF) = 0xEF" "byte (CHR 0xBF) = 0xBF" "byte (CHR 0xBD) = 0xBD"
    by (simp_all add: byte_def)
  then have "chr 0xEF = CHR 0xEF" "chr 0xBF = CHR 0xBF" "chr 0xBD = CHR 0xBD"
    using chr_byte [of "CHR 0xEF"] chr_byte [of "CHR 0xBF"] chr_byte [of "CHR 0xBD"] by simp_all
  then have e: "EncodeRune 0xFFFD = [CHR 0xEF, CHR 0xBF, CHR 0xBD]"
    by (simp add: EncodeRune_def)
  show ?thesis
    using bq by (simp add: g e IsSurrogate_def Let_def del: getu4.simps)
qed

lemma unquote_appendString_loop:
  "unquote (appendString_loop v @ dquote # rest) = Some (toValidUTF8 v, rest)"
proof (induction v rule: appendString_loop.induct)
  case 1
  show ?case
    by simp
next
  case (2 c s)
  show ?case
  proof (cases "byte c < 0x80")
    case True
    show ?thesis
    proof (cases "htmlSafeSet (byte c)")
      case safe: True
      have "unquote (appendString_loop s @ dquote # rest) = Some (toValidUTF8 s, rest)"
        using "2.IH"(1) [OF True safe] .
      then show ?thesis
        using True safe by (simp add: unquote_safe emit_Some del: unquote.simps)
    next
      case unsafe: False
      have "unquote (appendString_loop s @ dquote # rest) = Some (toValidUTF8 s, rest)"
        using "2.IH"(2) [OF True unsafe] .
      then show ?thesis
        using True unsafe by (simp add: unquote_escapeByte emit_Some del: unquote.simps)
    qed
  next
    case False
    define r where "r = fst (DecodeRuneInString (take 4 (c # s)))"
    define size where "size = snd (DecodeRuneInString (take 4 (c # s)))"
    have hi: "0x80 \<le> byte c"
      using False by simp
    show ?thesis
    proof (cases "r = RuneError \<and> size = 1")
      case err: True
      have ih: "unquote (appendString_loop s @ dquote # rest) = Some (toValidUTF8 s, rest)"
        using "2.IH"(3) [OF False r_def size_def err] .
      have a: "appendString_loop (c # s) =
          [backslash, CHR ''u'', CHR ''f'', CHR ''f'', CHR ''f'', CHR ''d''] @ appendString_loop s"
        using False err by (simp add: r_def size_def Let_def)
      have t: "toValidUTF8 (c # s) = [CHR 0xEF, CHR 0xBF, CHR 0xBD] @ toValidUTF8 s"
        using False err by (simp add: r_def size_def Let_def)
      show ?thesis
        unfolding a t using unquote_ufffd ih by (simp add: emit_Some del: unquote.simps)
    next
      case ne: False
      from multi_byte [OF hi ne [unfolded r_def size_def]]
      have enc: "EncodeRune r = c # take (size - 1) s"
        and len: "size - 1 \<le> length s"
        and unq: "\<And>X. unquote (c # take (size - 1) s @ X) = emit (c # take (size - 1) s) (unquote X)"
        by (simp_all add: r_def size_def)
      have t: "toValidUTF8 (c # s) = c # take (size - 1) s @ toValidUTF8 (drop (size - 1) s)"
        using False ne by (simp add: r_def size_def Let_def)
      show ?thesis
      proof (cases "r = 0x2028 \<or> r = 0x2029")
        case ls: True
        have ih: "unquote (appendString_loop (drop (size - 1) s) @ dquote # rest)
            = Some (toValidUTF8 (drop (size - 1) s), rest)"
          using "2.IH"(4) [OF False r_def size_def ne ls] .
        have a: "appendString_loop (c # s) =
            [backslash, CHR ''u'', CHR ''2'', CHR ''0'', CHR ''2'', hex (r mod 16)]
              @ appendString_loop (drop (size - 1) s)"
          using False ne ls by (simp add: r_def size_def Let_def)
        show ?thesis
          unfolding a t using unquote_u202 [OF ls] ih enc
          by (simp add: emit_Some del: unquote.simps)
      next
        case nls: False
        have ih: "unquote (appendString_loop (drop (size - 1) s) @ dquote # rest)
            = Some (toValidUTF8 (drop (size - 1) s), rest)"
          using "2.IH"(5) [OF False r_def size_def ne nls] .
        have a: "appendString_loop (c # s) =
            c # take (size - 1) s @ appendString_loop (drop (size - 1) s)"
          using False ne nls by (simp add: r_def size_def Let_def)
        show ?thesis
          unfolding a t using unq ih by (simp add: emit_Some del: unquote.simps)
      qed
    qed
  qed
qed

lemma toValidUTF8_valid: "ValidString v \<Longrightarrow> toValidUTF8 v = v"
proof (induction v rule: toValidUTF8.induct)
  case 1
  show ?case by simp
next
  case (2 c s)
  show ?case
  proof (cases "byte c < 0x80")
    case True
    with 2 show ?thesis by simp
  next
    case False
    define r where "r = fst (DecodeRuneInString (take 4 (c # s)))"
    define size where "size = snd (DecodeRuneInString (take 4 (c # s)))"
    have ne: "\<not> (r = RuneError \<and> size = 1)" and vs: "ValidString (drop (size - 1) s)"
      using "2.prems" False by (auto simp add: r_def size_def Let_def split: if_splits)
    have ih: "toValidUTF8 (drop (size - 1) s) = drop (size - 1) s"
      using "2.IH"(3) [OF False r_def size_def ne vs] .
    have t: "toValidUTF8 (c # s) = c # take (size - 1) s @ toValidUTF8 (drop (size - 1) s)"
      using False ne by (simp add: r_def size_def Let_def)
    show ?thesis
      unfolding t ih by simp
  qed
qed

lemma unquote_plain: "plain k \<Longrightarrow> unquote (k @ dquote # X) = Some (k, X)"
proof (induction k)
  case Nil
  show ?case by simp
next
  case (Cons c k)
  then have "htmlSafeSet (byte c)" and "unquote (k @ dquote # X) = Some (k, X)"
    by (simp_all add: plain_def)
  then show ?case
    by (simp add: unquote_safe emit_Some del: unquote.simps)
qed

lemma skip_ws_nonspace: "\<not> isSpace c \<Longrightarrow> skip_ws (c # s) = c # s"
  by simp

lemma not_space: "\<not> isSpace dquote" "\<not> isSpace (CHR '':'')" "\<not> isSpace (CHR '','')"
  "\<not> isSpace (CHR ''}'')" "\<not> isSpace (CHR ''{'')"
  by (simp_all add: isSpace_def dquote_def)

lemma object_members_member:
  assumes k: "plain k" and d: "d = CHR '','' \<or> d = CHR ''}''"
  shows "object_members m0 (memberEncoder (kv_member (k, v)) @ d # X) =
    (case set_field m0 k (toValidUTF8 v) of
       None \<Rightarrow> None
     | Some m' \<Rightarrow> if d = CHR '','' then object_members m' X else Some (m', X))"
proof -
  have shape: "memberEncoder (kv_member (k, v)) @ d # X
      = dquote # (k @ dquote # CHR '':'' # dquote # (appendString_loop v @ dquote # d # X))"
    by (simp add: memberEncoder_def kv_member_def appendString_def)
  have nd: "\<not> isSpace d"
    using d not_space by auto
  have u1: "unquote (k @ dquote # CHR '':'' # dquote # (appendString_loop v @ dquote # d # X))
      = Some (k, CHR '':'' # dquote # (appendString_loop v @ dquote # d # X))"
    using k by (rule unquote_plain)
  have u2: "unquote (appendString_loop v @ dquote # d # X) = Some (toValidUTF8 v, d # X)"
    by (rule unquote_appendString_loop)
  show ?thesis
    unfolding shape
    apply (subst object_members.simps)
    apply (simp only: skip_ws_nonspace [OF not_space(1)] skip_ws_nonspace [OF not_space(2)]
        skip_ws_nonspace [OF nd] u1 u2 list.case option.case prod.case if_False if_True
        not_not refl simp_thms)
    using d by (auto split: option.split)
qed

lemma object_members_commaSep:
  assumes "kvs \<noteq> []" and "list_all (\<lambda>kv. plain (fst kv)) kvs"
  shows "object_members m0 (commaSep (map memberEncoder (map kv_member kvs)) @ CHR ''}'' # X)
    = map_option (\<lambda>m. (m, X)) (assign m0 kvs)"
  using assms
proof (induction kvs arbitrary: m0)
  case Nil
  then show ?case by simp
next
  case (Cons a kvs)
  obtain k v where a: "a = (k, v)"
    by (cases a)
  have pk: "plain k"
    using Cons.prems(2) a by simp
  show ?case
  proof (cases kvs)
    case Nil
    show ?thesis
      using object_members_member [OF pk, of "CHR ''}''" m0 v X]
      by (simp add: Nil a split: option.split)
  next
    case (Cons b kvs')
    have ih: "object_members m' (commaSep (map memberEncoder (map kv_member kvs)) @ CHR ''}'' # X)
        = map_option (\<lambda>m. (m, X)) (assign m' kvs)" for m'
      using Cons.IH [of m'] Cons.prems(2) Cons by simp
    have t: "commaSep (map memberEncoder (map kv_member (a # kvs))) @ CHR ''}'' # X
        = memberEncoder (kv_member (k, v)) @ CHR '','' #
            (commaSep (map memberEncoder (map kv_member kvs)) @ CHR ''}'' # X)"
      by (simp add: Cons a)
    show ?thesis
      unfolding t using object_members_member [OF pk, of "CHR '',''" m0 v] ih
      by (simp add: a split: option.split)
  qed
qed

lemma stringField_kv: "stringField k v = map kv_member (kv k v)"
  by (simp add: stringField_def omitempty_def kv_def kv_member_def)

lemma members_Message_kvs:
  "Message.Attachments m = [] \<Longrightarrow> members_Message m = map kv_member (kvs_of m)"
  by (simp add: members_Message_def kvs_of_def stringField_kv omitempty_def)

lemma plain_keys: "plain ''username''" "plain ''channel''" "plain ''icon_emoji''"
  "plain ''icon_url''" "plain ''text''"
  by (simp_all add: plain_def htmlSafeSet_def byte_def)

lemma plain_kv: "plain k \<Longrightarrow> list_all (\<lambda>kv. plain (fst kv)) (kv k v)"
  by (simp add: kv_def)

lemma plain_kvs_of: "list_all (\<lambda>kv. plain (fst kv)) (kvs_of m)"
  by (simp add: kvs_of_def plain_kv plain_keys)

lemma assign_append:
  "assign m (a @ b) = (case assign m a of None \<Rightarrow> None | Some m' \<Rightarrow> assign m' b)"
  by (induction a arbitrary: m) (simp_all split: option.split)

lemma assign_kv:
  "set_field m k (toValidUTF8 v) = Some m' \<Longrightarrow> assign m (kv k v) = Some (if v = [] then m else m')"
  by (simp add: kv_def)

lemma assign_kvs_of:
  assumes "Message.Attachments m = []"
  shows "assign Message_zero (kvs_of m) = Some (toValid_Message m)"
proof -
  obtain u c e i t a where m: "m = \<lparr>Username = u, Channel = c, IconEmoji = e, IconURL = i,
      Text = t, Attachments = a\<rparr>"
    by (cases m) auto
  have a: "a = []"
    using assms m by simp
  have s: "set_field x ''username'' w = Some (x\<lparr>Username := w\<rparr>)"
    "set_field x ''channel'' w = Some (x\<lparr>Channel := w\<rparr>)"
    "set_field x ''icon_emoji'' w = Some (x\<lparr>IconEmoji := w\<rparr>)"
    "set_field x ''icon_url'' w = Some (x\<lparr>IconURL := w\<rparr>)"
    "set_field x ''text'' w = Some (x\<lparr>Message.Text := w\<rparr>)" for x w
    by (simp_all add: set_field_def)
  show ?thesis
    unfolding kvs_of_def assign_append
    by (simp add: assign_kv [OF s(1)] assign_kv [OF s(2)] assign_kv [OF s(3)] assign_kv [OF s(4)]
        assign_kv [OF s(5)] m a Message_zero_def toValid_Message_def)
qed

lemma unmarshal_marshal:
  assumes att: "Message.Attachments m = []" and ws: "skip_ws ws = []"
  shows "unmarshal_Message (marshal_Message m @ ws) = Some (toValid_Message m)"
proof (cases "kvs_of m = []")
  case True
  then have "assign Message_zero [] = Some (toValid_Message m)"
    using assign_kvs_of [OF att] by simp
  then have z: "toValid_Message m = Message_zero"
    by simp
  have "marshal_Message m = ''{}''"
    using True by (simp add: marshal_Message_def members_Message_kvs [OF att] structEncoder_def)
  then show ?thesis
    using ws by (simp add: unmarshal_Message_def finish_def z isSpace_def)
next
  case False
  define body where "body = commaSep (map memberEncoder (map kv_member (kvs_of m))) @ CHR ''}'' # ws"
  have mm: "marshal_Message m @ ws = CHR ''{'' # body"
    by (simp add: marshal_Message_def members_Message_kvs [OF att] structEncoder_def body_def)
  have om: "object_members Message_zero body = Some (toValid_Message m, ws)"
    unfolding body_def
    using object_members_commaSep [OF False plain_kvs_of, of Message_zero ws]
    by (simp add: assign_kvs_of [OF att])
  obtain k v rest where kvs: "kvs_of m = (k, v) # rest"
    using False by (cases "kvs_of m") auto
  have hd: "body = dquote # tl body"
    by (cases rest) (simp_all add: body_def kvs memberEncoder_def)
  have sk: "skip_ws body = dquote # tl body"
    using hd skip_ws_nonspace [OF not_space(1), of "tl body"] by simp
  have dq: "dquote \<noteq> CHR ''}''"
    by (simp add: dquote_def)
  have s1: "skip_ws (CHR ''{'' # body) = CHR ''{'' # body"
    by (rule skip_ws_nonspace [OF not_space(5)])
  have "unmarshal_Message (CHR ''{'' # body) = finish (toValid_Message m) ws"
    by (simp only: unmarshal_Message_def s1 sk list.case om option.case prod.case dq
        if_False not_not refl simp_thms)
  then show ?thesis
    unfolding mm by (simp add: finish_def ws)
qed

subsection \<open>The keys of an encoded struct\<close>








lemma dquote_neq: "dquote \<noteq> CHR ''{''" "dquote \<noteq> CHR ''[''" "dquote \<noteq> CHR ''}''" "dquote \<noteq> CHR '']''"
  "dquote \<noteq> CHR ''t''" "dquote \<noteq> CHR ''f''" "dquote \<noteq> CHR ''n''" "dquote \<noteq> CHR '':''"
  "dquote \<noteq> CHR '',''" "dquote \<noteq> CHR ''-''"
  by (simp_all add: dquote_def)









lemma value_text_braces: "neutral p \<Longrightarrow> value_text (CHR ''{'' # p @ ''}'')"
  by (simp add: value_text_def skip_value_def neutral_def dquote_neq [symmetric])


































subsection \<open>Strings that the round trip keeps\<close>

lemma toValidUTF8_fixed: "toValidUTF8 v = v \<Longrightarrow> ValidString v"
proof (induction v rule: toValidUTF8.induct)
  case 1
  show ?case by simp
next
  case (2 c s)
  show ?case
  proof (cases "byte c < 0x80")
    case True
    with 2 show ?thesis by simp
  next
    case False
    define r where "r = fst (DecodeRuneInString (take 4 (c # s)))"
    define size where "size = snd (DecodeRuneInString (take 4 (c # s)))"
    have hi: "0x80 \<le> byte c"
      using False by simp
    show ?thesis
    proof (cases "r = RuneError \<and> size = 1")
      case err: True
      have "toValidUTF8 (c # s) = [CHR 0xEF, CHR 0xBF, CHR 0xBD] @ toValidUTF8 s"
        using False err by (simp add: r_def size_def Let_def)
      with "2.prems" obtain t where s: "c = CHR 0xEF" "s = CHR 0xBF # CHR 0xBD # t"
        by auto
      have "ok3 c (CHR 0xBF) (CHR 0xBD)"
        by (simp add: s ok3_def byte_def acceptLo_def acceptHi_def contb_def)
      then have "DecodeRuneInString (take 4 (c # s)) = (dec3 c (CHR 0xBF) (CHR 0xBD), 3)"
        by (simp add: s(2) Decode_ok3)
      then have "size = 3"
        by (simp add: size_def)
      with err show ?thesis
        by simp
    next
      case ne: False
      from multi_byte [OF hi ne [unfolded r_def size_def]]
      have len: "size - 1 \<le> length s"
        by (simp add: size_def)
      have t: "toValidUTF8 (c # s) = c # take (size - 1) s @ toValidUTF8 (drop (size - 1) s)"
        using False ne by (simp add: r_def size_def Let_def)
      have "take (size - 1) s @ toValidUTF8 (drop (size - 1) s) = take (size - 1) s @ drop (size - 1) s"
        using "2.prems" unfolding t by simp
      then have "toValidUTF8 (drop (size - 1) s) = drop (size - 1) s"
        by (simp only: same_append_eq)
      then have "ValidString (drop (size - 1) s)"
        using "2.IH"(3) [OF False r_def size_def ne] by simp
      then show ?thesis
        using False ne by (simp add: r_def size_def Let_def)
    qed
  qed
qed

lemma toValidUTF8_eq_iff: "(toValidUTF8 v = v) = ValidString v"
  using toValidUTF8_fixed toValidUTF8_valid by blast

section \<open>Properties\<close>

text \<open>
  C4. \<^verbatim>\<open>Send\<close> with a nil message returns the error of the first \<^verbatim>\<open>return\<close>
  (the specification's \<open>InvalidInput\<close>), whatever the client and the transport are, and
  it has made no call by then: nothing was encoded, nothing was posted.
\<close>

theorem Send_nil_message:
  "returned (Client_Send DefaultClient c None) = Some (InvalidInput ''message is nil'')
   \<and> calls (Client_Send DefaultClient c None) = []"
  by (simp add: Client_Send_def)

text \<open>
  C10. \<^verbatim>\<open>Send\<close> assigns to no field of \<^verbatim>\<open>*c\<close> and to no field of \<^verbatim>\<open>*message\<close>:
  on every path both hold, when it returns, the values they held when it was called.
\<close>

theorem Send_frame:
  "final_client (Client_Send DefaultClient c message) = c
   \<and> final_message (Client_Send DefaultClient c message) = message"
  by (simp add: Client_Send_def Let_def split: option.split sum.split)

text \<open>
  C1. The claim: \<^verbatim>\<open>Send\<close> returns no error exactly when the status code is in [200,300).
  The only test of the code is \<^verbatim>\<open>resp.StatusCode >= 300\<close>, so a response below 200 is
  a success too: here the transport answers \<^verbatim>\<open>101 Switching Protocols\<close> and \<^verbatim>\<open>Send\<close>
  returns nil.
\<close>

theorem Send_status_101_returns_nil:
  "returned (Client_Send (answering ''101 Switching Protocols'' 101 []) example_client (Some hello)) = None"
  by (simp add: Client_Send_def Encode_def answering_def example_client_def)



text \<open>
  C3, as claimed: the transport receives exactly \<^verbatim>\<open>{"text":"hello"}\<close> for
  \<^verbatim>\<open>Message{Text: "hello"}\<close>. It does not: \<^verbatim>\<open>Encoder.Encode\<close> ends the encoding with
  a newline, and the buffer it wrote is the body.
\<close>

theorem hello_body_counterexample:
  \<open>posted_bodies (Client_Send (answering ''200 OK'' 200 ''ok'') example_client (Some hello)) \<noteq> [''{"text":"hello"}'']\<close>
  by (simp add: Client_Send_def Encode_hello answering_def example_client_def posted_bodies_def)

text \<open>
  C3, amended: for \<^verbatim>\<open>Message{Text: "hello"}\<close>, whatever the client and the transport,
  \<^verbatim>\<open>Send\<close> posts once, and the body is the bytes \<^verbatim>\<open>{"text":"hello"}\<close> followed by
  one newline.
\<close>

theorem hello_body:
  \<open>posted_bodies (Client_Send DefaultClient c (Some hello)) = [''{"text":"hello"}'' @ [CHR 0x0A]]\<close>
  by (simp add: Client_Send_def Encode_hello posted_bodies_def Let_def split: sum.split)

text \<open>
  C5, as claimed: a response with status 404 gives an error that contains \<^verbatim>\<open>404\<close>.
  The message is built from \<^verbatim>\<open>resp.Status\<close>, the status text that the transport put in
  the response, and not from \<^verbatim>\<open>resp.StatusCode\<close>. A response whose code is 404 and whose
  status text is empty gives a message without \<^verbatim>\<open>404\<close>.
\<close>

theorem Send_404_empty_status_counterexample:
  "returned (Client_Send (answering [] 404 ''no_team'') example_client (Some hello))
     = Some (RemoteRejected ''Slack API returned : no_team'')
   \<and> \<not> sublist ''404'' (Error (RemoteRejected ''Slack API returned : no_team''))"
proof
  show "returned (Client_Send (answering [] 404 ''no_team'') example_client (Some hello))
     = Some (RemoteRejected ''Slack API returned : no_team'')"
    by (simp add: Client_Send_def Encode_def answering_def example_client_def)
  show "\<not> sublist ''404'' (Error (RemoteRejected ''Slack API returned : no_team''))"
    by code_simp
qed

text \<open>
  C5, amended: for every response with a status code of 300 or more, \<^verbatim>\<open>Send\<close> returns
  the error of the last two \<^verbatim>\<open>return\<close> statements (the specification's
  \<open>RemoteRejected\<close>). Its message contains the status text of the response, so it
  contains \<^verbatim>\<open>404\<close> when the status text does, and the body when the body was read; when
  the body could not be read it contains the status text, the words
  \<^verbatim>\<open>could not read body\<close> and the description of the read error.
\<close>

theorem Send_remote_rejected:
  assumes enc: "Encode m = Inr b"
    and post: "transport_of DefaultClient c (WebhookURL c) ''application/json'' b = Inr resp"
    and code: "300 \<le> StatusCode resp"
  shows "\<exists>msg. returned (Client_Send DefaultClient c (Some m)) = Some (RemoteRejected msg)
      \<and> sublist (Status resp) msg
      \<and> (sublist ''404'' (Status resp) \<longrightarrow> sublist ''404'' msg)
      \<and> (case Body resp of
            Inr body \<Rightarrow> msg = ''Slack API returned '' @ Status resp @ '': '' @ body \<and> sublist body msg
          | Inl e \<Rightarrow> msg = ''Slack API returned '' @ Status resp @ '' (could not read body: '' @ e @ '')''
                \<and> sublist ''could not read body'' msg \<and> sublist e msg)"
proof (cases "Body resp")
  case (Inl e)
  let ?msg = "''Slack API returned '' @ Status resp @ '' (could not read body: '' @ e @ '')''"
  have r: "returned (Client_Send DefaultClient c (Some m)) = Some (RemoteRejected ?msg)"
    using enc post code Inl by (simp add: Client_Send_def transport_of_def Let_def)
  have s: "sublist (Status resp) ?msg"
    by (rule sublist_mid)
  have n: "sublist ''could not read body'' ?msg"
    using sublist_mid [of "''could not read body''" "''Slack API returned '' @ Status resp @ '' (''" "'': '' @ e @ '')''"]
    by simp
  have e: "sublist e ?msg"
    using sublist_mid [of e "''Slack API returned '' @ Status resp @ '' (could not read body: ''" "'')''"]
    by simp
  from r s n e Inl show ?thesis
    by (auto intro: sublist_order.order_trans)
next
  case (Inr body)
  let ?msg = "''Slack API returned '' @ Status resp @ '': '' @ body"
  have r: "returned (Client_Send DefaultClient c (Some m)) = Some (RemoteRejected ?msg)"
    using enc post code Inr by (simp add: Client_Send_def transport_of_def Let_def)
  have s: "sublist (Status resp) ?msg"
    by (rule sublist_mid)
  have b: "sublist body ?msg"
    using sublist_last [of body "''Slack API returned '' @ Status resp @ '': ''"] by simp
  from r s b Inr show ?thesis
    by (auto intro: sublist_order.order_trans)
qed

theorem Send_remote_rejected_witness:
  "Encode hello = Inr (marshal_Message hello @ [CHR 0x0A])
   \<and> transport_of (answering ''404 Not Found'' 404 ''no_team'') example_client
        (WebhookURL example_client) ''application/json'' (marshal_Message hello @ [CHR 0x0A])
      = Inr \<lparr>Status = ''404 Not Found'', StatusCode = 404, Body = Inr ''no_team''\<rparr>
   \<and> (300::int) \<le> 404
   \<and> returned (Client_Send (answering ''404 Not Found'' 404 ''no_team'') example_client (Some hello))
      = Some (RemoteRejected ''Slack API returned 404 Not Found: no_team'')
   \<and> sublist ''404'' ''Slack API returned 404 Not Found: no_team''
   \<and> sublist ''no_team'' ''Slack API returned 404 Not Found: no_team''"
proof -
  let ?resp = "\<lparr>Status = ''404 Not Found'', StatusCode = 404, Body = Inr ''no_team''\<rparr>"
  have h1: "Encode hello = Inr (marshal_Message hello @ [CHR 0x0A])"
    by (simp add: Encode_def)
  have h2: "transport_of (answering ''404 Not Found'' 404 ''no_team'') example_client
        (WebhookURL example_client) ''application/json'' (marshal_Message hello @ [CHR 0x0A]) = Inr ?resp"
    by (simp add: transport_of_def answering_def example_client_def)
  have h3: "300 \<le> StatusCode ?resp"
    by simp
  have s: "sublist ''404'' (Status ?resp)"
    by code_simp
  from Send_remote_rejected [OF h1 h2 h3] s h1 h2 show ?thesis
    by auto
qed

text \<open>
  C6. When the transport returns an error and no response, \<^verbatim>\<open>Send\<close> returns the
  error of the third \<^verbatim>\<open>return\<close> (the specification's \<open>TransportFailure\<close>), and its
  message ends with the description of the transport's error. The request was the one
  call made.
\<close>

theorem Send_transport_failure:
  assumes enc: "Encode m = Inr b"
    and post: "transport_of DefaultClient c (WebhookURL c) ''application/json'' b = Inl e"
  shows "returned (Client_Send DefaultClient c (Some m))
           = Some (TransportFailure (''Could not send the request: '' @ e))
    \<and> sublist e (Error (TransportFailure (''Could not send the request: '' @ e)))
    \<and> calls (Client_Send DefaultClient c (Some m)) = [Post_called (WebhookURL c) ''application/json'' b]"
proof -
  have "sublist e (''Could not send the request: '' @ e)"
    by (rule sublist_last)
  then show ?thesis
    using enc post by (simp add: Client_Send_def transport_of_def Let_def)
qed

theorem Send_transport_failure_witness:
  "Encode hello = Inr (marshal_Message hello @ [CHR 0x0A])
   \<and> transport_of (failing ''dial tcp: connection refused'') example_client
        (WebhookURL example_client) ''application/json'' (marshal_Message hello @ [CHR 0x0A])
      = Inl ''dial tcp: connection refused''
   \<and> returned (Client_Send (failing ''dial tcp: connection refused'') example_client (Some hello))
      = Some (TransportFailure ''Could not send the request: dial tcp: connection refused'')"
proof -
  have h1: "Encode hello = Inr (marshal_Message hello @ [CHR 0x0A])"
    by (simp add: Encode_def)
  have h2: "transport_of (failing ''dial tcp: connection refused'') example_client
        (WebhookURL example_client) ''application/json'' (marshal_Message hello @ [CHR 0x0A])
      = Inl ''dial tcp: connection refused''"
    by (simp add: transport_of_def failing_def example_client_def)
  from Send_transport_failure [OF h1 h2] h1 h2 show ?thesis
    by simp
qed

text \<open>
  C8. The function \<^verbatim>\<open>Send(WebhookURL, message)\<close> returns the same error, after the same
  calls and with the same message, as \<^verbatim>\<open>Send\<close> on a client that holds the URL and the
  default transport.
\<close>

theorem Send_is_spec_Send:
  "returned (Send DefaultClient url message) = returned (spec_Send DefaultClient url message)
   \<and> calls (Send DefaultClient url message) = calls (spec_Send DefaultClient url message)
   \<and> final_message (Send DefaultClient url message) = final_message (spec_Send DefaultClient url message)"
  by (simp add: Send_def spec_Send_def Client_Send_def Let_def split: option.split sum.split)

text \<open>
  C9, as claimed: the body of the response is read to its end and closed on every path.
  On the success path it is closed and never read.
\<close>

theorem Send_success_body_not_read_counterexample:
  "returned (Client_Send (answering ''200 OK'' 200 ''ok'') example_client (Some hello)) = None
   \<and> ReadAll_called \<notin> set (calls (Client_Send (answering ''200 OK'' 200 ''ok'') example_client (Some hello)))"
  by (simp add: Client_Send_def Encode_def answering_def example_client_def)

text \<open>
  C9, amended: whenever the transport returned a response, the last call of \<^verbatim>\<open>Send\<close>
  closes the body. The body is read, by one \<^verbatim>\<open>ReadAll\<close> before the close, exactly when
  the status code is 300 or more.
\<close>

theorem Send_closes_body:
  assumes enc: "Encode m = Inr b"
    and post: "transport_of DefaultClient c (WebhookURL c) ''application/json'' b = Inr resp"
  shows "calls (Client_Send DefaultClient c (Some m))
     = Post_called (WebhookURL c) ''application/json'' b
       # (if 300 \<le> StatusCode resp then [ReadAll_called] else []) @ [Close_called]"
  using enc post by (simp add: Client_Send_def transport_of_def Let_def split: sum.split)

theorem Send_closes_body_witness:
  "Encode hello = Inr (marshal_Message hello @ [CHR 0x0A])
   \<and> transport_of (answering ''200 OK'' 200 ''ok'') example_client
        (WebhookURL example_client) ''application/json'' (marshal_Message hello @ [CHR 0x0A])
      = Inr \<lparr>Status = ''200 OK'', StatusCode = 200, Body = Inr ''ok''\<rparr>
   \<and> calls (Client_Send (answering ''200 OK'' 200 ''ok'') example_client (Some hello))
      = [Post_called (WebhookURL example_client) ''application/json'' (marshal_Message hello @ [CHR 0x0A]),
         Close_called]"
proof -
  have h1: "Encode hello = Inr (marshal_Message hello @ [CHR 0x0A])"
    by (simp add: Encode_def)
  have h2: "transport_of (answering ''200 OK'' 200 ''ok'') example_client
        (WebhookURL example_client) ''application/json'' (marshal_Message hello @ [CHR 0x0A])
      = Inr \<lparr>Status = ''200 OK'', StatusCode = 200, Body = Inr ''ok''\<rparr>"
    by (simp add: transport_of_def answering_def example_client_def)
  from Send_closes_body [OF h1 h2] h1 h2 show ?thesis
    by simp
qed

text \<open>
  C7, as claimed: a \<^verbatim>\<open>Message\<close> without attachments comes back from JSON equal on every
  field that was not omitted. A Go string is any sequence of bytes, and the encoder writes
  a byte that is not UTF-8 as the escape \<^verbatim>\<open>\ufffd\<close>: the text of one byte 0xFF is not omitted,
  and it comes back as the three bytes of U+FFFD.
\<close>

theorem roundtrip_invalid_utf8_counterexample:
  "unmarshal_Message (marshal_Message (Message_zero\<lparr>Message.Text := [CHR 0xFF]\<rparr>))
     = Some (Message_zero\<lparr>Message.Text := [CHR 0xEF, CHR 0xBF, CHR 0xBD]\<rparr>)
   \<and> ''text'' \<in> set (keys (members_Message (Message_zero\<lparr>Message.Text := [CHR 0xFF]\<rparr>)))
   \<and> Message.Text (Message_zero\<lparr>Message.Text := [CHR 0xEF, CHR 0xBF, CHR 0xBD]\<rparr>)
       \<noteq> Message.Text (Message_zero\<lparr>Message.Text := [CHR 0xFF]\<rparr>)"
proof -
  have a: "Message.Attachments (Message_zero\<lparr>Message.Text := [CHR 0xFF]\<rparr>) = []"
    by (simp add: Message_zero_def)
  have "unmarshal_Message (marshal_Message (Message_zero\<lparr>Message.Text := [CHR 0xFF]\<rparr>) @ [])
     = Some (toValid_Message (Message_zero\<lparr>Message.Text := [CHR 0xFF]\<rparr>))"
    using a by (rule unmarshal_marshal) simp
  then show ?thesis
    by (simp add: toValid_Message_def Message_zero_def in_keys members_Message_def
        byte_def DecodeRuneInString_def RuneError_def Let_def)
qed

text \<open>
  C7, amended: for every \<^verbatim>\<open>Message\<close> without attachments, decoding its encoding (with
  or without the newline that \<^verbatim>\<open>Encoder.Encode\<close> adds) succeeds, and the result has no
  attachments. It is equal to the original on exactly the string fields that hold valid
  UTF-8, which every omitted field does; a field with bytes that are not valid UTF-8 comes
  back changed.
\<close>

theorem roundtrip_valid_utf8:
  assumes "Message.Attachments m = []"
  shows "\<exists>m'. unmarshal_Message (marshal_Message m) = Some m'
    \<and> unmarshal_Message (marshal_Message m @ [CHR 0x0A]) = Some m'
    \<and> (Message.Username m' = Message.Username m) = ValidString (Message.Username m)
    \<and> (Message.Channel m' = Message.Channel m) = ValidString (Message.Channel m)
    \<and> (Message.IconEmoji m' = Message.IconEmoji m) = ValidString (Message.IconEmoji m)
    \<and> (Message.IconURL m' = Message.IconURL m) = ValidString (Message.IconURL m)
    \<and> (Message.Text m' = Message.Text m) = ValidString (Message.Text m)
    \<and> Message.Attachments m' = []"
proof -
  have "unmarshal_Message (marshal_Message m @ []) = Some (toValid_Message m)"
    using assms by (rule unmarshal_marshal) simp
  moreover have "unmarshal_Message (marshal_Message m @ [CHR 0x0A]) = Some (toValid_Message m)"
    using assms by (rule unmarshal_marshal) (simp add: isSpace_def)
  ultimately show ?thesis
    using assms by (simp add: toValid_Message_def toValidUTF8_eq_iff)
qed

theorem roundtrip_valid_utf8_witness:
  "Message.Attachments bonjour = []
   \<and> ValidString (Message.Username bonjour) \<and> ValidString (Message.Channel bonjour)
   \<and> ValidString (Message.IconEmoji bonjour) \<and> ValidString (Message.IconURL bonjour)
   \<and> ValidString (Message.Text bonjour)
   \<and> unmarshal_Message (marshal_Message bonjour) = Some bonjour"
proof -
  have a: "Message.Attachments bonjour = []"
    by (simp add: bonjour_def Message_zero_def)
  have v: "ValidString (Message.Username bonjour)" "ValidString (Message.Channel bonjour)"
    "ValidString (Message.IconEmoji bonjour)" "ValidString (Message.IconURL bonjour)"
    "ValidString (Message.Text bonjour)"
    by (simp_all add: bonjour_def Message_zero_def byte_def DecodeRuneInString_def Let_def
        runeSize_def acceptLo_def acceptHi_def RuneError_def)
  from roundtrip_valid_utf8 [OF a] obtain m' where
    m': "unmarshal_Message (marshal_Message bonjour) = Some m'"
    "Message.Username m' = Message.Username bonjour" "Message.Channel m' = Message.Channel bonjour"
    "Message.IconEmoji m' = Message.IconEmoji bonjour" "Message.IconURL m' = Message.IconURL bonjour"
    "Message.Text m' = Message.Text bonjour" "Message.Attachments m' = []"
    using v by blast
  have "m' = bonjour"
    using m'(2-7) a by (cases m', cases bonjour) simp
  with m'(1) a v show ?thesis
    by simp
qed

end
